theory Spec2Isabelle
  imports Main "HOL-Library.Word"
begin

section \<open>The wire codec of kazoo/protocol/serialization.py\<close>

text \<open>
  A shallow embedding of the serializers and deserializers of
  \<^verbatim>\<open>kazoo/protocol/serialization.py\<close>. Python integers are \<open>int\<close>, a byte is an
  \<open>8 word\<close>, a buffer is a list of bytes, and an offset is an \<open>int\<close> (Python lets it be
  negative, counting from the end). Every exception the code can raise is a value
  \<open>Inl e\<close> of the result type.
\<close>

subsection \<open>Bytes, errors and results\<close>

type_synonym byte = "8 word"

datatype py_error =
    StructError
  | UnicodeEncodeError
  | UnicodeDecodeError
  | AttributeError
  | TypeError

text \<open>Sequencing of two steps that may raise: the first exception wins.\<close>

definition bind_res :: "py_error + 'a \<Rightarrow> ('a \<Rightarrow> py_error + 'b) \<Rightarrow> py_error + 'b" where
  "bind_res r f = (case r of Inl e \<Rightarrow> Inl e | Inr v \<Rightarrow> f v)"

text \<open>
  The slice \<^verbatim>\<open>xs[i:j]\<close>: a negative index counts from the end, both indices are
  clamped to the sequence, and the slice never raises.
\<close>

definition py_index :: "nat \<Rightarrow> int \<Rightarrow> nat" where
  "py_index n k = (if k < 0 then nat (max (k + int n) 0) else min (nat k) n)"

definition py_slice :: "'a list \<Rightarrow> int \<Rightarrow> int \<Rightarrow> 'a list" where
  "py_slice xs i j =
     (let lo = py_index (length xs) i; hi = py_index (length xs) j
      in take (hi - lo) (drop lo xs))"

subsection \<open>The \<^verbatim>\<open>struct\<close> module, network byte order\<close>

text \<open>
  The formats the module compiles use two field codes only: \<^verbatim>\<open>i\<close>, a signed 4-byte
  integer, and \<^verbatim>\<open>q\<close>, a signed 8-byte integer. With the prefix \<^verbatim>\<open>!\<close> the
  fields are big-endian and packed without padding.
\<close>

datatype fmt = Fmt_i | Fmt_q

fun fmt_size :: "fmt \<Rightarrow> nat" where
  "fmt_size Fmt_i = 4"
| "fmt_size Fmt_q = 8"

definition calcsize :: "fmt list \<Rightarrow> nat" where
  "calcsize fs = sum_list (map fmt_size fs)"

text \<open>The \<open>n\<close> low bytes of a natural number, most significant first.\<close>

fun nat_to_be :: "nat \<Rightarrow> nat \<Rightarrow> byte list" where
  "nat_to_be 0 u = []"
| "nat_to_be (Suc n) u = nat_to_be n (u div 256) @ [of_nat (u mod 256)]"

definition int_to_be :: "nat \<Rightarrow> int \<Rightarrow> byte list" where
  "int_to_be n x = nat_to_be n (nat (x mod 2 ^ (8 * n)))"

definition be_to_nat :: "byte list \<Rightarrow> nat" where
  "be_to_nat bs = foldl (\<lambda>a b. a * 256 + unat b) 0 bs"

definition be_to_int :: "byte list \<Rightarrow> int" where
  "be_to_int bs =
     (let u = int (be_to_nat bs); m = 2 ^ (8 * length bs)
      in if m \<le> 2 * u then u - m else u)"

text \<open>Packing one field raises \<^verbatim>\<open>struct.error\<close> when the value does not fit.\<close>

definition fmt_fits :: "fmt \<Rightarrow> int \<Rightarrow> bool" where
  "fmt_fits f x \<longleftrightarrow> - (2 ^ (8 * fmt_size f - 1)) \<le> x \<and> x < 2 ^ (8 * fmt_size f - 1)"

definition pack_field :: "fmt \<Rightarrow> int \<Rightarrow> py_error + byte list" where
  "pack_field f x = (if fmt_fits f x then Inr (int_to_be (fmt_size f) x) else Inl StructError)"

text \<open>\<^verbatim>\<open>Struct.pack\<close>: one argument per field, or \<^verbatim>\<open>struct.error\<close>.\<close>

fun struct_pack :: "fmt list \<Rightarrow> int list \<Rightarrow> py_error + byte list" where
  "struct_pack [] [] = Inr []"
| "struct_pack (f # fs) (x # xs) =
     bind_res (pack_field f x) (\<lambda>b.
     bind_res (struct_pack fs xs) (\<lambda>bs. Inr (b @ bs)))"
| "struct_pack _ _ = Inl StructError"

fun unpack_fields :: "fmt list \<Rightarrow> byte list \<Rightarrow> int list" where
  "unpack_fields [] bs = []"
| "unpack_fields (f # fs) bs =
     be_to_int (take (fmt_size f) bs) # unpack_fields fs (drop (fmt_size f) bs)"

text \<open>
  \<^verbatim>\<open>Struct.unpack_from(buffer, offset)\<close>: a negative offset counts from the end of
  the buffer; \<^verbatim>\<open>struct.error\<close> when fewer than \<^verbatim>\<open>size\<close> bytes follow the offset.
\<close>

definition unpack_from :: "fmt list \<Rightarrow> byte list \<Rightarrow> int \<Rightarrow> py_error + int list" where
  "unpack_from fs buffer offset =
     (let n = int (length buffer);
          off = (if offset < 0 then offset + n else offset)
      in if off < 0 \<or> n - off < int (calcsize fs) then Inl StructError
         else Inr (unpack_fields fs (drop (nat off) buffer)))"

text \<open>The struct objects of the module, lines 10 to 16.\<close>

definition int_struct :: "fmt list" where
  "int_struct = [Fmt_i]"

definition int_int_struct :: "fmt list" where
  "int_int_struct = [Fmt_i, Fmt_i]"

definition int_int_long_struct :: "fmt list" where
  "int_int_long_struct = [Fmt_i, Fmt_i, Fmt_q]"

definition int_long_int_long_struct :: "fmt list" where
  "int_long_int_long_struct = [Fmt_i, Fmt_q, Fmt_i, Fmt_q]"

definition reply_header_struct :: "fmt list" where
  "reply_header_struct = [Fmt_i, Fmt_q, Fmt_i]"

definition stat_struct :: "fmt list" where
  "stat_struct = [Fmt_q, Fmt_q, Fmt_q, Fmt_q, Fmt_i, Fmt_i, Fmt_i, Fmt_q, Fmt_i, Fmt_i, Fmt_q]"

text \<open>\<^verbatim>\<open>int_struct.unpack_from(buffer, offset)[0]\<close> and \<^verbatim>\<open>int_struct.pack(x)\<close>.\<close>

definition unpack_int :: "byte list \<Rightarrow> int \<Rightarrow> py_error + int" where
  "unpack_int buffer offset =
     bind_res (unpack_from int_struct buffer offset) (\<lambda>vs. Inr (hd vs))"

definition pack_int :: "int \<Rightarrow> py_error + byte list" where
  "pack_int x = struct_pack int_struct [x]"

subsection \<open>Text and UTF-8\<close>

text \<open>
  A text value is the sequence of its code points. \<^verbatim>\<open>str.encode('utf-8')\<close> writes
  one to four bytes for each and raises \<^verbatim>\<open>UnicodeEncodeError\<close> on a surrogate
  (a \<^verbatim>\<open>str\<close> holds no number from \<open>0x110000\<close> on; the model refuses such
  a number in the same way). \<^verbatim>\<open>None\<close> is the value \<open>None\<close> of the option type.
\<close>

type_synonym utext = "nat list"

definition utf8_encode_char :: "nat \<Rightarrow> py_error + byte list" where
  "utf8_encode_char c =
     (if c < 0x80 then Inr [of_nat c]
      else if c < 0x800 then Inr [of_nat (0xC0 + c div 64), of_nat (0x80 + c mod 64)]
      else if 0xD800 \<le> c \<and> c < 0xE000 then Inl UnicodeEncodeError
      else if c < 0x10000 then
        Inr [of_nat (0xE0 + c div 4096), of_nat (0x80 + c div 64 mod 64),
             of_nat (0x80 + c mod 64)]
      else if c < 0x110000 then
        Inr [of_nat (0xF0 + c div 262144), of_nat (0x80 + c div 4096 mod 64),
             of_nat (0x80 + c div 64 mod 64), of_nat (0x80 + c mod 64)]
      else Inl UnicodeEncodeError)"

fun utf8_encode :: "utext \<Rightarrow> py_error + byte list" where
  "utf8_encode [] = Inr []"
| "utf8_encode (c # cs) =
     bind_res (utf8_encode_char c) (\<lambda>b.
     bind_res (utf8_encode cs) (\<lambda>bs. Inr (b @ bs)))"

text \<open>
  \<^verbatim>\<open>bytes.decode('utf-8')\<close> is strict: a continuation byte is \<open>0x80..0xBF\<close>; a
  truncated sequence, a stray continuation byte, an overlong form, an encoded
  surrogate and a value from \<open>0x110000\<close> on raise \<^verbatim>\<open>UnicodeDecodeError\<close>.
\<close>

definition is_cont :: "byte \<Rightarrow> bool" where
  "is_cont b \<longleftrightarrow> 0x80 \<le> unat b \<and> unat b < 0xC0"

definition cont_bits :: "byte \<Rightarrow> nat" where
  "cont_bits b = unat b - 0x80"

fun utf8_decode :: "byte list \<Rightarrow> py_error + utext" where
  "utf8_decode [] = Inr []"
| "utf8_decode (b # bs) =
     (let n = unat b in
      if n < 0x80 then bind_res (utf8_decode bs) (\<lambda>cs. Inr (n # cs))
      else if n < 0xC2 then Inl UnicodeDecodeError
      else if n < 0xE0 then
        (case bs of
           c1 # r \<Rightarrow>
             if is_cont c1
             then bind_res (utf8_decode r) (\<lambda>cs. Inr (((n - 0xC0) * 64 + cont_bits c1) # cs))
             else Inl UnicodeDecodeError
         | _ \<Rightarrow> Inl UnicodeDecodeError)
      else if n < 0xF0 then
        (case bs of
           c1 # c2 # r \<Rightarrow>
             (let cp = (n - 0xE0) * 4096 + cont_bits c1 * 64 + cont_bits c2 in
              if is_cont c1 \<and> is_cont c2 \<and> 0x800 \<le> cp \<and> \<not> (0xD800 \<le> cp \<and> cp < 0xE000)
              then bind_res (utf8_decode r) (\<lambda>cs. Inr (cp # cs))
              else Inl UnicodeDecodeError)
         | _ \<Rightarrow> Inl UnicodeDecodeError)
      else if n < 0xF5 then
        (case bs of
           c1 # c2 # c3 # r \<Rightarrow>
             (let cp = (n - 0xF0) * 262144 + cont_bits c1 * 4096 + cont_bits c2 * 64
                       + cont_bits c3 in
              if is_cont c1 \<and> is_cont c2 \<and> is_cont c3 \<and> 0x10000 \<le> cp \<and> cp < 0x110000
              then bind_res (utf8_decode r) (\<lambda>cs. Inr (cp # cs))
              else Inl UnicodeDecodeError)
         | _ \<Rightarrow> Inl UnicodeDecodeError)
      else Inl UnicodeDecodeError)"

subsection \<open>Length-prefixed text and buffers (lines 19 to 63)\<close>

text \<open>
  \<^verbatim>\<open>read_string(buffer, offset)\<close>. The slice does not raise when the buffer is
  shorter than the length read: it is cut at the end of the buffer, and the offset
  returned is still the one after the announced length.
\<close>

definition read_string :: "byte list \<Rightarrow> int \<Rightarrow> py_error + (utext option \<times> int)" where
  "read_string buffer offset =
     bind_res (unpack_int buffer offset) (\<lambda>len.
       let offset = offset + int (calcsize int_struct) in
       if len < 0 then Inr (None, offset)
       else
         let index = offset; offset = offset + len in
         bind_res (utf8_decode (py_slice buffer index (index + len))) (\<lambda>s.
           Inr (Some s, offset)))"

text \<open>\<^verbatim>\<open>write_string(bytes)\<close>: \<^verbatim>\<open>not bytes\<close> holds of \<^verbatim>\<open>None\<close> and of the empty text.\<close>

definition write_string :: "utext option \<Rightarrow> py_error + byte list" where
  "write_string bytes =
     (if bytes = None \<or> bytes = Some [] then pack_int (- 1)
      else
        bind_res (utf8_encode (the bytes)) (\<lambda>utf8_str.
        bind_res (pack_int (int (length utf8_str))) (\<lambda>l. Inr (l @ utf8_str))))"

text \<open>\<^verbatim>\<open>write_buffer(bytes)\<close>: \<^verbatim>\<open>None\<close> and the empty buffer are written as \<open>-1\<close>.\<close>

definition write_buffer :: "byte list option \<Rightarrow> py_error + byte list" where
  "write_buffer bytes =
     (if bytes = None \<or> bytes = Some [] then pack_int (- 1)
      else bind_res (pack_int (int (length (the bytes)))) (\<lambda>l. Inr (l @ the bytes)))"

text \<open>
  \<^verbatim>\<open>read_buffer(bytes, offset)\<close>: a negative length gives the empty sequence
  \<^verbatim>\<open>""\<close>, not \<^verbatim>\<open>None\<close>.
\<close>

definition read_buffer :: "byte list \<Rightarrow> int \<Rightarrow> py_error + (byte list \<times> int)" where
  "read_buffer bytes offset =
     bind_res (unpack_int bytes offset) (\<lambda>len.
       let offset = offset + int (calcsize int_struct) in
       if len < 0 then Inr ([], offset)
       else
         let index = offset; offset = offset + len in
         Inr (py_slice bytes index (index + len), offset))"

subsection \<open>The records the codec builds and reads\<close>

text \<open>
  Modelled from the spec: the identity pair \<^verbatim>\<open>Id\<close> and the entry \<^verbatim>\<open>ACL\<close> of
  \<^verbatim>\<open>kazoo.security\<close> and the node-metadata record \<^verbatim>\<open>ZnodeStat\<close> of
  \<^verbatim>\<open>kazoo.protocol.states\<close> are imported by the module and declared elsewhere. An
  identity pair has a scheme and an identifier, an entry has a permission bitmask and
  an identity pair, and the metadata record has the eleven fields below, in this order.
\<close>

record Id =
  scheme :: "utext option"
  id_text :: "utext option"

record ACL =
  perms :: int
  acl_id :: Id

record ZnodeStat =
  czxid :: int
  mzxid :: int
  ctime :: int
  mtime :: int
  version :: int
  cversion :: int
  aversion :: int
  ephemeralOwner :: int
  dataLength :: int
  numChildren :: int
  pzxid :: int

text \<open>
  \<^verbatim>\<open>ZnodeStat._make(iterable)\<close> builds the record from eleven values and raises
  \<^verbatim>\<open>TypeError\<close> for any other number of them.
\<close>

definition ZnodeStat_make :: "int list \<Rightarrow> py_error + ZnodeStat" where
  "ZnodeStat_make vs =
     (if length vs = 11 then
        Inr \<lparr>czxid = vs ! 0, mzxid = vs ! 1, ctime = vs ! 2, mtime = vs ! 3,
             version = vs ! 4, cversion = vs ! 5, aversion = vs ! 6,
             ephemeralOwner = vs ! 7, dataLength = vs ! 8, numChildren = vs ! 9,
             pzxid = vs ! 10\<rparr>
      else Inl TypeError)"

text \<open>\<^verbatim>\<open>read_acl(bytes, offset)\<close>, lines 32 to 37.\<close>

definition read_acl :: "byte list \<Rightarrow> int \<Rightarrow> py_error + (ACL \<times> int)" where
  "read_acl bytes offset =
     bind_res (unpack_int bytes offset) (\<lambda>p.
       let offset = offset + int (calcsize int_struct) in
       bind_res (read_string bytes offset) (\<lambda>(s, offset).
       bind_res (read_string bytes offset) (\<lambda>(i, offset).
         Inr (\<lparr>perms = p, acl_id = \<lparr>scheme = s, id_text = i\<rparr>\<rparr>, offset))))"

subsection \<open>Connect (lines 84 to 104)\<close>

text \<open>
  The flag \<^verbatim>\<open>read_only\<close> is an integer, as \<^verbatim>\<open>deserialize\<close> stores it
  (\<^verbatim>\<open>False\<close> is 0 and \<^verbatim>\<open>True\<close> is 1); \<^verbatim>\<open>serialize\<close> tests its truth value.
\<close>

record Connect =
  protocol_version :: int
  last_zxid_seen :: int
  time_out :: int
  session_id :: int
  passwd :: "byte list option"
  read_only :: int

definition Connect_serialize :: "Connect \<Rightarrow> py_error + byte list" where
  "Connect_serialize self =
     bind_res (struct_pack int_long_int_long_struct
                 [protocol_version self, last_zxid_seen self, time_out self, session_id self])
       (\<lambda>h.
     let b = [] @ h in
     bind_res (write_buffer (passwd self)) (\<lambda>p.
     let b = b @ p in
     let b = b @ [if read_only self \<noteq> 0 then 1 else 0] in
     Inr b))"

definition Connect_deserialize :: "byte list \<Rightarrow> int \<Rightarrow> py_error + (Connect \<times> int)" where
  "Connect_deserialize bytes offset =
     bind_res (unpack_from int_int_long_struct bytes offset) (\<lambda>vs.
       let proto_version = vs ! 0; timeout = vs ! 1; session_id = vs ! 2;
           offset = offset + int (calcsize int_int_long_struct) in
       bind_res (read_buffer bytes offset) (\<lambda>(password, offset).
         Inr (\<lparr>protocol_version = proto_version, last_zxid_seen = 0, time_out = timeout,
               session_id = session_id, passwd = Some password, read_only = 0\<rparr>, offset)))"

subsection \<open>Create (lines 107 to 123)\<close>

record Create =
  path :: "utext option"
  data :: "byte list option"
  acl :: "ACL list"
  flags :: int

text \<open>The loop \<^verbatim>\<open>for acl in self.acl: b.extend(...)\<close> over the bytearray \<open>b\<close>.\<close>

fun extend_acls :: "byte list \<Rightarrow> ACL list \<Rightarrow> py_error + byte list" where
  "extend_acls b [] = Inr b"
| "extend_acls b (a # as) =
     bind_res (pack_int (perms a)) (\<lambda>p.
     bind_res (write_string (scheme (acl_id a))) (\<lambda>s.
     bind_res (write_string (id_text (acl_id a))) (\<lambda>i.
       extend_acls (b @ (p @ s @ i)) as)))"

definition Create_serialize :: "Create \<Rightarrow> py_error + byte list" where
  "Create_serialize self =
     bind_res (write_string (path self)) (\<lambda>p.
     let b = [] @ p in
     bind_res (write_buffer (data self)) (\<lambda>d.
     let b = b @ d in
     bind_res (pack_int (int (length (acl self)))) (\<lambda>n.
     let b = b @ n in
     bind_res (extend_acls b (acl self)) (\<lambda>b.
     bind_res (pack_int (flags self)) (\<lambda>f.
     let b = b @ f in
     Inr b)))))"

subsection \<open>Exists, SetData and GetACL responses (lines 149 to 204)\<close>

definition Exists_deserialize :: "byte list \<Rightarrow> int \<Rightarrow> py_error + ZnodeStat option" where
  "Exists_deserialize bytes offset =
     bind_res (unpack_from stat_struct bytes offset) (\<lambda>vs.
     bind_res (ZnodeStat_make vs) (\<lambda>stat.
       Inr (if czxid stat \<noteq> - 1 then Some stat else None)))"

definition SetData_deserialize :: "byte list \<Rightarrow> int \<Rightarrow> py_error + ZnodeStat" where
  "SetData_deserialize bytes offset =
     bind_res (unpack_from stat_struct bytes offset) ZnodeStat_make"

text \<open>
  \<^verbatim>\<open>GetACL.deserialize\<close> returns the bare list \<^verbatim>\<open>[]\<close> when the count is \<open>-1\<close>
  and the pair \<^verbatim>\<open>(acls, stat)\<close> otherwise.
\<close>

datatype GetACL_reply = Acls_only "ACL list" | Acls_stat "ACL list" ZnodeStat

text \<open>The loop \<^verbatim>\<open>for c in range(count)\<close>, with the list built so far and the offset.\<close>

fun read_acls :: "nat \<Rightarrow> byte list \<Rightarrow> ACL list \<Rightarrow> int \<Rightarrow> py_error + (ACL list \<times> int)" where
  "read_acls 0 bytes acls offset = Inr (acls, offset)"
| "read_acls (Suc c) bytes acls offset =
     bind_res (read_acl bytes offset) (\<lambda>(acl, offset).
       read_acls c bytes (acls @ [acl]) offset)"

definition GetACL_deserialize :: "byte list \<Rightarrow> int \<Rightarrow> py_error + GetACL_reply" where
  "GetACL_deserialize bytes offset =
     bind_res (unpack_int bytes offset) (\<lambda>count.
       let offset = offset + int (calcsize int_struct) in
       if count = - 1 then Inr (Acls_only [])
       else
         bind_res (read_acls (nat count) bytes [] offset) (\<lambda>(acls, offset).
         bind_res (unpack_from stat_struct bytes offset) (\<lambda>vs.
         bind_res (ZnodeStat_make vs) (\<lambda>stat.
           Inr (Acls_stat acls stat)))))"

subsection \<open>SetACL (lines 207 to 218)\<close>

record SetACL =
  path :: "utext option"
  acls :: "ACL list"
  version :: int

text \<open>
  The attribute \<^verbatim>\<open>self.acl\<close>. The type is
  \<^verbatim>\<open>namedtuple('SetACL', 'path acls version')\<close>: its fields are \<^verbatim>\<open>path\<close>,
  \<^verbatim>\<open>acls\<close> and \<^verbatim>\<open>version\<close>, the class adds \<^verbatim>\<open>type\<close> and the two methods,
  and no attribute is named \<^verbatim>\<open>acl\<close>, so the lookup raises \<^verbatim>\<open>AttributeError\<close>.
\<close>

definition SetACL_acl :: "SetACL \<Rightarrow> py_error + ACL list" where
  "SetACL_acl self = Inl AttributeError"

definition SetACL_serialize :: "SetACL \<Rightarrow> py_error + byte list" where
  "SetACL_serialize self =
     bind_res (write_string (SetACL.path self)) (\<lambda>p.
     let b = [] @ p in
     bind_res (SetACL_acl self) (\<lambda>self_acl.
     bind_res (pack_int (int (length self_acl))) (\<lambda>n.
     let b = b @ n in
     bind_res (SetACL_acl self) (\<lambda>self_acl.
     bind_res (extend_acls b self_acl) (\<lambda>b.
     bind_res (pack_int (SetACL.version self)) (\<lambda>v.
     let b = b @ v in
     Inr b))))))"

subsection \<open>GetChildren (lines 225 to 232)\<close>

text \<open>
  The field \<^verbatim>\<open>watcher\<close> is read for its truth value only; the field
  \<^verbatim>\<open>children\<close> may hold anything.
\<close>

record 'c GetChildren =
  path :: "utext option"
  children :: 'c
  watcher :: bool

definition GetChildren_serialize :: "'c GetChildren \<Rightarrow> py_error + byte list" where
  "GetChildren_serialize self =
     bind_res (write_string (GetChildren.path self)) (\<lambda>p.
     let b = [] @ p in
     let b = b @ [if watcher self then 1 else 0] in
     Inr b)"

subsection \<open>What a text becomes on the wire\<close>

text \<open>
  \<^verbatim>\<open>write_string\<close> writes the empty text as it writes \<^verbatim>\<open>None\<close>, so
  \<^verbatim>\<open>read_string\<close> gives \<^verbatim>\<open>None\<close> back for both. \<open>wire_text\<close> is the value that
  comes back; it is used in the statements below only.
\<close>

definition wire_text :: "utext option \<Rightarrow> utext option" where
  "wire_text s = (if s = Some [] then None else s)"

definition wire_acl :: "ACL \<Rightarrow> ACL" where
  "wire_acl a =
     \<lparr>perms = perms a,
      acl_id = \<lparr>scheme = wire_text (scheme (acl_id a)),
                id_text = wire_text (id_text (acl_id a))\<rparr>\<rparr>"

section \<open>Basic facts\<close>

subsection \<open>Results\<close>

lemma bind_res_Inl [simp]: "bind_res (Inl e) f = Inl e"
  by (simp add: bind_res_def)

lemma bind_res_Inr [simp]: "bind_res (Inr v) f = f v"
  by (simp add: bind_res_def)

lemma bind_res_eq_Inr:
  "bind_res r f = Inr y \<longleftrightarrow> (\<exists>v. r = Inr v \<and> f v = Inr y)"
  by (cases r) simp_all

subsection \<open>Big-endian integers, slices and structs\<close>

lemma nat_to_be_numeral [simp]:
  "nat_to_be (numeral k) u = nat_to_be (pred_numeral k) (u div 256) @ [of_nat (u mod 256)]"
  by (simp only: numeral_eq_Suc [of k] nat_to_be.simps)

lemma length_nat_to_be [simp]: "length (nat_to_be n u) = n"
  by (induction n arbitrary: u) simp_all

lemma be_to_nat_snoc: "be_to_nat (bs @ [b]) = be_to_nat bs * 256 + unat b"
  by (simp add: be_to_nat_def)

lemma unat_byte_of_nat: "unat (of_nat (u mod 256) :: byte) = u mod 256"
  by (simp add: unat_of_nat)

lemma be_to_nat_nat_to_be: "be_to_nat (nat_to_be n u) = u mod 256 ^ n"
proof (induction n arbitrary: u)
  case 0
  show ?case by (simp add: be_to_nat_def)
next
  case (Suc n)
  have "be_to_nat (nat_to_be (Suc n) u) = (u div 256) mod 256 ^ n * 256 + u mod 256"
    by (simp add: be_to_nat_snoc Suc unat_byte_of_nat)
  also have "\<dots> = u mod 256 ^ Suc n"
    by (simp add: mod_mult2_eq mult.commute)
  finally show ?case .
qed

lemma py_slice_mid:
  "py_slice (pre @ mid @ post) (int (length pre)) (int (length pre) + int (length mid)) = mid"
  by (simp add: py_slice_def py_index_def nat_add_distrib)

lemma py_slice_empty [simp]: "py_slice xs i i = []"
  by (simp add: py_slice_def)

lemma be_to_int_int_to_be:
  assumes n: "0 < n" and lo: "- (2 ^ (8 * n - 1)) \<le> x" and hi: "x < 2 ^ (8 * n - 1)"
  shows "be_to_int (int_to_be n x) = x"
proof -
  define m :: int where "m = 2 ^ (8 * n)"
  define h :: int where "h = 2 ^ (8 * n - 1)"
  have "8 * n = Suc (8 * n - 1)" using n by simp
  then have "m = 2 ^ Suc (8 * n - 1)" unfolding m_def by simp
  then have mh: "m = 2 * h" unfolding h_def by simp
  have lo': "- h \<le> x" and hi': "x < h" using lo hi unfolding h_def by simp_all
  have p: "(256::nat) ^ n = 2 ^ (8 * n)" by (simp add: power_mult)
  have "int (be_to_nat (int_to_be n x)) = x mod m"
    by (simp add: int_to_be_def be_to_nat_nat_to_be p m_def nat_mod_distrib zmod_int nat_power_eq)
  moreover have "length (int_to_be n x) = n" by (simp add: int_to_be_def)
  ultimately have b: "be_to_int (int_to_be n x) = (if m \<le> 2 * (x mod m) then x mod m - m else x mod m)"
    by (simp add: be_to_int_def Let_def m_def)
  show ?thesis
  proof (cases "0 \<le> x")
    case True
    with hi' mh have "x mod m = x" by simp
    with True hi' mh b show ?thesis by simp
  next
    case False
    with lo' mh have "x mod m = x + m"
      by (smt (verit) mod_add_self2 mod_pos_pos_trivial)
    with False lo' mh b show ?thesis by simp
  qed
qed


lemma pack_field_Inr:
  "pack_field f x = Inr b \<longleftrightarrow> fmt_fits f x \<and> b = int_to_be (fmt_size f) x"
  by (auto simp: pack_field_def)

lemma length_int_to_be [simp]: "length (int_to_be n x) = n"
  by (simp add: int_to_be_def)

lemma fmt_size_pos [simp]: "0 < fmt_size f"
  by (cases f) simp_all

lemma be_to_int_pack_field:
  "pack_field f x = Inr b \<Longrightarrow> be_to_int b = x"
  by (auto simp: pack_field_Inr fmt_fits_def intro: be_to_int_int_to_be)

lemma length_pack_field:
  "pack_field f x = Inr b \<Longrightarrow> length b = fmt_size f"
  by (simp add: pack_field_Inr)

lemma struct_pack_length:
  "struct_pack fs xs = Inr bs \<Longrightarrow> length bs = calcsize fs"
proof (induction fs xs arbitrary: bs rule: struct_pack.induct)
  case (2 f fs x xs)
  from "2.prems" obtain b bs' where b: "pack_field f x = Inr b"
    and bs': "struct_pack fs xs = Inr bs'" and bs: "bs = b @ bs'"
    by (auto simp: bind_res_eq_Inr)
  with "2.IH" [OF bs'] show ?case by (simp add: calcsize_def length_pack_field)
qed (simp_all add: calcsize_def)

lemma struct_pack_args:
  "struct_pack fs xs = Inr bs \<Longrightarrow> length xs = length fs"
proof (induction fs xs arbitrary: bs rule: struct_pack.induct)
  case (2 f fs x xs)
  then show ?case by (auto simp: bind_res_eq_Inr)
qed simp_all

lemma unpack_fields_struct_pack:
  "struct_pack fs xs = Inr bs \<Longrightarrow> unpack_fields fs (bs @ rest) = xs"
proof (induction fs xs arbitrary: bs rule: struct_pack.induct)
  case (2 f fs x xs)
  from "2.prems" obtain b bs' where b: "pack_field f x = Inr b"
    and bs': "struct_pack fs xs = Inr bs'" and bs: "bs = b @ bs'"
    by (auto simp: bind_res_eq_Inr)
  from b have "length b = fmt_size f" by (rule length_pack_field)
  with "2.IH" [OF bs'] b bs show ?case by (simp add: be_to_int_pack_field)
qed simp_all

lemma unpack_from_struct_pack:
  assumes "struct_pack fs xs = Inr bs"
  shows "unpack_from fs (pre @ bs @ rest) (int (length pre)) = Inr xs"
  using struct_pack_length [OF assms] unpack_fields_struct_pack [OF assms]
  by (simp add: unpack_from_def)

lemma unpack_from_short:
  "0 \<le> offset \<Longrightarrow> int (length buffer) < offset + int (calcsize fs)
     \<Longrightarrow> unpack_from fs buffer offset = Inl StructError"
  by (simp add: unpack_from_def)


subsection \<open>UTF-8: decoding what was encoded\<close>

lemma split64: "q div 64 * (64 * k) + q mod 64 * k = q * k" for q k :: nat
proof -
  have "q * k = (q div 64 * 64 + q mod 64) * k" by simp
  also have "\<dots> = q div 64 * (64 * k) + q mod 64 * k"
    by (simp only: add_mult_distrib mult.assoc)
  finally show ?thesis by (rule sym)
qed

lemma cp3: "c div 4096 * 4096 + c div 64 mod 64 * 64 + c mod 64 = c" for c :: nat
proof -
  have "c div 4096 = c div 64 div 64" by (simp add: div_mult2_eq)
  with split64 [of "c div 64" 64]
  have "c div 4096 * 4096 + c div 64 mod 64 * 64 = c div 64 * 64" by simp
  then show ?thesis by simp
qed

lemma cp4: "c div 262144 * 262144 + c div 4096 mod 64 * 4096 + c div 64 mod 64 * 64 + c mod 64 = c" for c :: nat
proof -
  have "c div 262144 = c div 4096 div 64" by (simp add: div_mult2_eq)
  with split64 [of "c div 4096" 4096]
  have "c div 262144 * 262144 + c div 4096 mod 64 * 4096 = c div 4096 * 4096" by simp
  then show ?thesis using cp3 [of c] by simp
qed


lemma unat_byte: "n < 256 \<Longrightarrow> unat (of_nat n :: byte) = n"
  by (simp add: unat_of_nat)

lemma utf8_decode_1:
  assumes "c < 0x80"
  shows "utf8_decode (of_nat c # rest) = bind_res (utf8_decode rest) (\<lambda>cs. Inr (c # cs))"
  using assms by (simp add: unat_byte)

lemma utf8_decode_2_gen:
  assumes "unat b0 = 0xC0 + h" "unat b1 = 0x80 + l" "2 \<le> h" "h < 32" "l < 64"
  shows "utf8_decode (b0 # b1 # rest)
         = bind_res (utf8_decode rest) (\<lambda>cs. Inr ((h * 64 + l) # cs))"
  using assms by (simp add: is_cont_def cont_bits_def Let_def)

lemma utf8_decode_2:
  assumes "0x80 \<le> c" "c < 0x800"
  shows "utf8_decode (of_nat (0xC0 + c div 64) # of_nat (0x80 + c mod 64) # rest)
         = bind_res (utf8_decode rest) (\<lambda>cs. Inr (c # cs))"
proof -
  have d: "2 \<le> c div 64" "c div 64 < 32" using assms by simp_all
  have b0: "unat (of_nat (0xC0 + c div 64) :: byte) = 0xC0 + c div 64"
    using d by (intro unat_byte) simp
  have b1: "unat (of_nat (0x80 + c mod 64) :: byte) = 0x80 + c mod 64"
    by (intro unat_byte) simp
  have cp: "c div 64 * 64 + c mod 64 = c" by simp
  have l: "c mod 64 < 64" by simp
  show ?thesis
    using utf8_decode_2_gen [OF b0 b1 d l, of rest] by (simp only: cp)
qed

lemma utf8_decode_3_gen:
  assumes "unat b0 = 0xE0 + h" "unat b1 = 0x80 + m" "unat b2 = 0x80 + l"
    "h < 16" "m < 64" "l < 64" "0x800 \<le> h * 4096 + m * 64 + l" 
    "\<not> (0xD800 \<le> h * 4096 + m * 64 + l \<and> h * 4096 + m * 64 + l < 0xE000)"
  shows "utf8_decode (b0 # b1 # b2 # rest)
         = bind_res (utf8_decode rest) (\<lambda>cs. Inr ((h * 4096 + m * 64 + l) # cs))"
  using assms by (simp add: is_cont_def cont_bits_def Let_def)

lemma utf8_decode_3:
  assumes "0x800 \<le> c" "c < 0x10000" "\<not> (0xD800 \<le> c \<and> c < 0xE000)"
  shows "utf8_decode (of_nat (0xE0 + c div 4096) # of_nat (0x80 + c div 64 mod 64)
                      # of_nat (0x80 + c mod 64) # rest)
         = bind_res (utf8_decode rest) (\<lambda>cs. Inr (c # cs))"
proof -
  have d: "c div 4096 < 16" using assms by simp
  have b0: "unat (of_nat (0xE0 + c div 4096) :: byte) = 0xE0 + c div 4096"
    using d by (intro unat_byte) simp
  have b1: "unat (of_nat (0x80 + c div 64 mod 64) :: byte) = 0x80 + c div 64 mod 64"
    by (intro unat_byte) simp
  have b2: "unat (of_nat (0x80 + c mod 64) :: byte) = 0x80 + c mod 64"
    by (intro unat_byte) simp
  have m: "c div 64 mod 64 < 64" and l: "c mod 64 < 64" by simp_all
  note cp = cp3 [of c]
  have lo: "0x800 \<le> c div 4096 * 4096 + c div 64 mod 64 * 64 + c mod 64"
    unfolding cp by (rule assms(1))
  have ns: "\<not> (0xD800 \<le> c div 4096 * 4096 + c div 64 mod 64 * 64 + c mod 64
              \<and> c div 4096 * 4096 + c div 64 mod 64 * 64 + c mod 64 < 0xE000)"
    unfolding cp by (rule assms(3))
  show ?thesis
    using utf8_decode_3_gen [OF b0 b1 b2 d m l lo ns, of rest] by (simp only: cp)
qed

lemma utf8_decode_4_gen:
  assumes "unat b0 = 0xF0 + h" "unat b1 = 0x80 + m" "unat b2 = 0x80 + l" "unat b3 = 0x80 + k"
    "h < 5" "m < 64" "l < 64" "k < 64" "0x10000 \<le> h * 262144 + m * 4096 + l * 64 + k" 
    "h * 262144 + m * 4096 + l * 64 + k < 0x110000"
  shows "utf8_decode (b0 # b1 # b2 # b3 # rest)
         = bind_res (utf8_decode rest) (\<lambda>cs. Inr ((h * 262144 + m * 4096 + l * 64 + k) # cs))"
  using assms by (simp add: is_cont_def cont_bits_def Let_def)

lemma utf8_decode_4:
  assumes "0x10000 \<le> c" "c < 0x110000"
  shows "utf8_decode (of_nat (0xF0 + c div 262144) # of_nat (0x80 + c div 4096 mod 64)
                      # of_nat (0x80 + c div 64 mod 64) # of_nat (0x80 + c mod 64) # rest)
         = bind_res (utf8_decode rest) (\<lambda>cs. Inr (c # cs))"
proof -
  have d: "c div 262144 < 5" using assms by simp
  have b0: "unat (of_nat (0xF0 + c div 262144) :: byte) = 0xF0 + c div 262144"
    using d by (intro unat_byte) simp
  have b1: "unat (of_nat (0x80 + c div 4096 mod 64) :: byte) = 0x80 + c div 4096 mod 64"
    by (intro unat_byte) simp
  have b2: "unat (of_nat (0x80 + c div 64 mod 64) :: byte) = 0x80 + c div 64 mod 64"
    by (intro unat_byte) simp
  have b3: "unat (of_nat (0x80 + c mod 64) :: byte) = 0x80 + c mod 64"
    by (intro unat_byte) simp
  have m: "c div 4096 mod 64 < 64" and l: "c div 64 mod 64 < 64" and k: "c mod 64 < 64"
    by simp_all
  note cp = cp4 [of c]
  have lo: "0x10000 \<le> c div 262144 * 262144 + c div 4096 mod 64 * 4096 + c div 64 mod 64 * 64 + c mod 64"
    unfolding cp by (rule assms(1))
  have hi: "c div 262144 * 262144 + c div 4096 mod 64 * 4096 + c div 64 mod 64 * 64 + c mod 64 < 0x110000"
    unfolding cp by (rule assms(2))
  show ?thesis
    using utf8_decode_4_gen [OF b0 b1 b2 b3 d m l k lo hi, of rest] by (simp only: cp)
qed

lemma utf8_decode_encode_char:
  assumes "utf8_encode_char c = Inr b"
  shows "utf8_decode (b @ rest) = bind_res (utf8_decode rest) (\<lambda>cs. Inr (c # cs))"
proof -
  consider "c < 0x80" | "0x80 \<le> c" "c < 0x800"
    | "0x800 \<le> c" "c < 0x10000" "\<not> (0xD800 \<le> c \<and> c < 0xE000)"
    | "0x10000 \<le> c" "c < 0x110000"
    | "0xD800 \<le> c \<and> c < 0xE000" | "0x110000 \<le> c"
    by linarith
  then show ?thesis
  proof cases
    case 1
    with assms have "b = [of_nat c]" by (simp add: utf8_encode_char_def)
    then show ?thesis by (simp only: append_Cons append_Nil) (rule utf8_decode_1 [OF 1])
  next
    case 2
    with assms have "b = [of_nat (0xC0 + c div 64), of_nat (0x80 + c mod 64)]"
      by (simp add: utf8_encode_char_def)
    then show ?thesis by (simp only: append_Cons append_Nil) (rule utf8_decode_2 [OF 2])
  next
    case 3
    with assms have "b = [of_nat (0xE0 + c div 4096), of_nat (0x80 + c div 64 mod 64),
             of_nat (0x80 + c mod 64)]"
      by (simp add: utf8_encode_char_def)
    then show ?thesis by (simp only: append_Cons append_Nil) (rule utf8_decode_3 [OF 3])
  next
    case 4
    with assms have "b = [of_nat (0xF0 + c div 262144), of_nat (0x80 + c div 4096 mod 64),
             of_nat (0x80 + c div 64 mod 64), of_nat (0x80 + c mod 64)]"
      by (simp add: utf8_encode_char_def)
    then show ?thesis by (simp only: append_Cons append_Nil) (rule utf8_decode_4 [OF 4])
  next
    case 5
    with assms show ?thesis by (simp add: utf8_encode_char_def)
  next
    case 6
    with assms show ?thesis by (simp add: utf8_encode_char_def)
  qed
qed

lemma utf8_decode_encode_append:
  "utf8_encode s = Inr bs \<Longrightarrow>
   utf8_decode (bs @ rest) = bind_res (utf8_decode rest) (\<lambda>cs. Inr (s @ cs))"
proof (induction s arbitrary: bs)
  case Nil
  then show ?case by (cases "utf8_decode rest") simp_all
next
  case (Cons c s)
  from Cons.prems obtain b bs' where b: "utf8_encode_char c = Inr b"
    and bs': "utf8_encode s = Inr bs'" and bs: "bs = b @ bs'"
    by (auto simp: bind_res_eq_Inr)
  have "utf8_decode (bs @ rest) = utf8_decode (b @ (bs' @ rest))" by (simp add: bs)
  also have "\<dots> = bind_res (utf8_decode (bs' @ rest)) (\<lambda>cs. Inr (c # cs))"
    by (rule utf8_decode_encode_char [OF b])
  also have "\<dots> = bind_res (utf8_decode rest) (\<lambda>cs. Inr ((c # s) @ cs))"
    by (cases "utf8_decode rest") (simp_all add: Cons.IH [OF bs'])
  finally show ?case .
qed

lemma utf8_decode_encode:
  "utf8_encode s = Inr bs \<Longrightarrow> utf8_decode bs = Inr s"
  using utf8_decode_encode_append [of s bs "[]"] by simp

subsection \<open>Length-prefixed text and buffers\<close>

lemma calcsize_int_struct [simp]: "calcsize int_struct = 4"
  by (simp add: calcsize_def int_struct_def)

lemma pack_int_Inr:
  "pack_int x = Inr b \<longleftrightarrow> fmt_fits Fmt_i x \<and> b = int_to_be 4 x"
  by (auto simp: pack_int_def int_struct_def pack_field_def)

lemma pack_int_length: "pack_int x = Inr b \<Longrightarrow> length b = 4"
  by (simp add: pack_int_Inr)

lemma unpack_int_pack_int:
  assumes "pack_int x = Inr b"
  shows "unpack_int (pre @ b @ rest) (int (length pre)) = Inr x"
  using unpack_from_struct_pack [of int_struct "[x]" b pre rest] assms
  by (simp add: unpack_int_def pack_int_def)

lemma pack_int_minus1: "pack_int (- 1) = Inr [255, 255, 255, 255]"
  by (simp add: pack_int_def int_struct_def pack_field_def fmt_fits_def int_to_be_def)

lemma pack_int_nat:
  "n < 2 ^ 31 \<Longrightarrow> pack_int (int n) = Inr (int_to_be 4 (int n))"
  by (simp add: pack_int_Inr fmt_fits_def)

lemma utf8_encode_char_nonempty: "utf8_encode_char c = Inr b \<Longrightarrow> b \<noteq> []"
  by (auto simp: utf8_encode_char_def split: if_splits)

lemma utf8_encode_nonempty: "utf8_encode s = Inr bs \<Longrightarrow> s \<noteq> [] \<Longrightarrow> bs \<noteq> []"
  by (cases s) (auto simp: bind_res_eq_Inr dest: utf8_encode_char_nonempty)

lemma read_string_absent:
  assumes "pack_int (- 1) = Inr b"
  shows "read_string (pre @ b @ post) (int (length pre)) = Inr (None, int (length pre) + 4)"
  using unpack_int_pack_int [OF assms, of pre post]
  by (simp add: read_string_def)

lemma read_string_present:
  assumes u: "utf8_encode cs = Inr u" and l: "pack_int (int (length u)) = Inr l"
  shows "read_string (pre @ (l @ u) @ post) (int (length pre))
         = Inr (Some cs, int (length pre) + int (length (l @ u)))"
proof -
  have len: "length l = 4" using l by (rule pack_int_length)
  have "unpack_int (pre @ l @ (u @ post)) (int (length pre)) = Inr (int (length u))"
    by (rule unpack_int_pack_int [OF l])
  moreover have "py_slice ((pre @ l) @ u @ post) (int (length (pre @ l)))
                   (int (length (pre @ l)) + int (length u)) = u"
    by (rule py_slice_mid)
  ultimately show ?thesis
    using len utf8_decode_encode [OF u] by (simp add: read_string_def Let_def)
qed

lemma read_string_write_string_wire:
  assumes "write_string s = Inr bs"
  shows "read_string (pre @ bs @ post) (int (length pre))
         = Inr (wire_text s, int (length pre) + int (length bs))"
proof (cases "s = None \<or> s = Some []")
  case True
  with assms have b: "pack_int (- 1) = Inr bs" by (simp add: write_string_def)
  from True have "wire_text s = None" by (auto simp: wire_text_def)
  with read_string_absent [OF b, of pre post] pack_int_length [OF b] show ?thesis by simp
next
  case False
  then obtain cs where s: "s = Some cs" and cs: "cs \<noteq> []" by (cases s) auto
  with assms obtain u l where u: "utf8_encode cs = Inr u"
    and l: "pack_int (int (length u)) = Inr l" and bs: "bs = l @ u"
    by (auto simp: write_string_def bind_res_eq_Inr)
  from s cs have "wire_text s = Some cs" by (simp add: wire_text_def)
  with read_string_present [OF u l, of pre post] s bs show ?thesis by simp
qed

lemma utf8_encode_char_total:
  assumes "c < 0xD800 \<or> (0xE000 \<le> c \<and> c < 0x110000)"
  shows "\<exists>b. utf8_encode_char c = Inr b \<and> length b \<le> 4"
  using assms by (auto simp: utf8_encode_char_def)

lemma utf8_encode_total:
  assumes "\<forall>c\<in>set cs. c < 0xD800 \<or> (0xE000 \<le> c \<and> c < 0x110000)"
  shows "\<exists>bs. utf8_encode cs = Inr bs \<and> length bs \<le> 4 * length cs"
  using assms
proof (induction cs)
  case Nil
  show ?case by simp
next
  case (Cons c cs)
  then obtain bs where bs: "utf8_encode cs = Inr bs" "length bs \<le> 4 * length cs" by auto
  from Cons.prems obtain b where b: "utf8_encode_char c = Inr b" "length b \<le> 4"
    using utf8_encode_char_total [of c] by auto
  from b bs show ?case by simp
qed

lemma write_string_total:
  assumes "\<forall>c\<in>set cs. c < 0xD800 \<or> (0xE000 \<le> c \<and> c < 0x110000)"
    and "length cs < 2 ^ 29"
  shows "\<exists>bs. write_string (Some cs) = Inr bs"
proof -
  from utf8_encode_total [OF assms(1)] obtain u
    where u: "utf8_encode cs = Inr u" "length u \<le> 4 * length cs" by auto
  with assms(2) have "length u < 2 ^ 31" by simp
  then have "pack_int (int (length u)) = Inr (int_to_be 4 (int (length u)))"
    by (rule pack_int_nat)
  with u show ?thesis by (simp add: write_string_def pack_int_minus1)
qed

lemma pack_int_eq:
  "pack_int x = (if fmt_fits Fmt_i x then Inr (int_to_be 4 x) else Inl StructError)"
  by (simp add: pack_int_def int_struct_def pack_field_def)

text \<open>The unfoldings that evaluate the codec on a concrete buffer.\<close>

lemmas wire_eval =
  unpack_int_def unpack_from_def int_struct_def calcsize_def be_to_int_def be_to_nat_def
  pack_int_def pack_field_def fmt_fits_def int_to_be_def

lemma read_buffer_absent:
  assumes "pack_int (- 1) = Inr l"
  shows "read_buffer (pre @ l @ post) (int (length pre)) = Inr ([], int (length pre) + 4)"
  using unpack_int_pack_int [OF assms, of pre post]
  by (simp add: read_buffer_def)

lemma read_buffer_present:
  assumes l: "pack_int (int (length b)) = Inr l"
  shows "read_buffer (pre @ (l @ b) @ post) (int (length pre))
         = Inr (b, int (length pre) + 4 + int (length b))"
proof -
  have len: "length l = 4" using l by (rule pack_int_length)
  have "unpack_int (pre @ l @ (b @ post)) (int (length pre)) = Inr (int (length b))"
    by (rule unpack_int_pack_int [OF l])
  moreover have "py_slice ((pre @ l) @ b @ post) (int (length (pre @ l)))
                   (int (length (pre @ l)) + int (length b)) = b"
    by (rule py_slice_mid)
  ultimately show ?thesis
    using len by (simp add: read_buffer_def Let_def)
qed

lemma read_buffer_write_buffer_wire:
  assumes "write_buffer b = Inr enc"
  shows "read_buffer (pre @ enc @ post) (int (length pre))
         = Inr (case b of None \<Rightarrow> [] | Some x \<Rightarrow> x, int (length pre) + int (length enc))"
proof (cases "b = None \<or> b = Some []")
  case True
  with assms have l: "pack_int (- 1) = Inr enc" by (simp add: write_buffer_def)
  from True have "(case b of None \<Rightarrow> [] | Some x \<Rightarrow> x) = []" by auto
  with read_buffer_absent [OF l, of pre post] pack_int_length [OF l] show ?thesis by simp
next
  case False
  then obtain x where b: "b = Some x" and x: "x \<noteq> []" by (cases b) auto
  with assms obtain l where l: "pack_int (int (length x)) = Inr l" and enc: "enc = l @ x"
    by (auto simp: write_buffer_def bind_res_eq_Inr)
  from read_buffer_present [OF l, of pre post] pack_int_length [OF l] b enc
  show ?thesis by simp
qed

subsection \<open>The metadata record\<close>

lemma calcsize_stat_struct: "calcsize stat_struct = 68"
  by (simp add: calcsize_def stat_struct_def)

lemma calcsize_Cons: "calcsize (f # fs) = fmt_size f + calcsize fs"
  by (simp add: calcsize_def)

lemma length_unpack_fields [simp]: "length (unpack_fields fs bs) = length fs"
  by (induction fs arbitrary: bs) simp_all

lemma unpack_fields_take:
  "unpack_fields fs (take (calcsize fs) bs) = unpack_fields fs bs"
proof (induction fs arbitrary: bs)
  case Nil
  show ?case by simp
next
  case (Cons f fs)
  have "drop (fmt_size f) (take (fmt_size f + calcsize fs) bs)
        = take (calcsize fs) (drop (fmt_size f) bs)"
    by (simp add: drop_take)
  then show ?case by (simp add: calcsize_Cons Cons.IH)
qed

lemma unpack_from_window:
  assumes "0 \<le> offset" and "offset + int (calcsize fs) \<le> int (length bytes)"
  shows "unpack_from fs bytes offset = Inr (unpack_fields fs (drop (nat offset) bytes))"
    and "unpack_from fs (take (calcsize fs) (drop (nat offset) bytes)) 0
         = Inr (unpack_fields fs (drop (nat offset) bytes))"
proof -
  from assms have n: "nat offset + calcsize fs \<le> length bytes" by linarith
  from assms show "unpack_from fs bytes offset = Inr (unpack_fields fs (drop (nat offset) bytes))"
    by (simp add: unpack_from_def)
  from n have "min (length bytes - nat offset) (calcsize fs) = calcsize fs" by simp
  then show "unpack_from fs (take (calcsize fs) (drop (nat offset) bytes)) 0
         = Inr (unpack_fields fs (drop (nat offset) bytes))"
    by (simp add: unpack_from_def unpack_fields_take)
qed

lemma ZnodeStat_make_11:
  "ZnodeStat_make [a, b, c, d, e, f, g, h, i, j, k]
   = Inr \<lparr>czxid = a, mzxid = b, ctime = c, mtime = d, ZnodeStat.version = e, cversion = f,
          aversion = g, ephemeralOwner = h, dataLength = i, numChildren = j, pzxid = k\<rparr>"
  by (simp add: ZnodeStat_make_def)

lemma ZnodeStat_make_total:
  "length vs = 11 \<Longrightarrow> \<exists>stat. ZnodeStat_make vs = Inr stat \<and> czxid stat = vs ! 0"
  by (simp add: ZnodeStat_make_def)

lemma stat_unpack_pack:
  assumes "struct_pack stat_struct vs = Inr rec"
  shows "length rec = 68"
    and "unpack_from stat_struct (pre @ rec @ post) (int (length pre)) = Inr vs"
  using struct_pack_length [OF assms] unpack_from_struct_pack [OF assms]
  by (simp_all add: calcsize_stat_struct)

subsection \<open>ACL lists\<close>

lemma extend_acls_Inr:
  "extend_acls b as = Inr out \<longleftrightarrow> (\<exists>e. extend_acls [] as = Inr e \<and> out = b @ e)"
proof (induction as arbitrary: b out)
  case Nil
  show ?case by auto
next
  case (Cons a as)
  show ?case
    by (simp add: bind_res_eq_Inr Cons.IH [of "b @ _"] Cons.IH [of "_ @ _ @ _"]) blast
qed

lemma read_acl_written:
  assumes p: "pack_int p = Inr pb" and s: "write_string s = Inr sb"
    and i: "write_string i = Inr ib"
  shows "read_acl (pre @ (pb @ sb @ ib) @ post) (int (length pre))
         = Inr (\<lparr>perms = p, acl_id = \<lparr>scheme = wire_text s, id_text = wire_text i\<rparr>\<rparr>,
                int (length pre) + int (length (pb @ sb @ ib)))"
proof -
  have len: "length pb = 4" using p by (rule pack_int_length)
  have 1: "unpack_int (pre @ pb @ (sb @ ib @ post)) (int (length pre)) = Inr p"
    by (rule unpack_int_pack_int [OF p])
  have 2: "read_string ((pre @ pb) @ sb @ (ib @ post)) (int (length (pre @ pb)))
           = Inr (wire_text s, int (length (pre @ pb)) + int (length sb))"
    by (rule read_string_write_string_wire [OF s])
  have 3: "read_string ((pre @ pb @ sb) @ ib @ post) (int (length (pre @ pb @ sb)))
           = Inr (wire_text i, int (length (pre @ pb @ sb)) + int (length ib))"
    by (rule read_string_write_string_wire [OF i])
  from 1 2 3 len show ?thesis
    by (simp add: read_acl_def add.assoc)
qed

lemma read_acls_written:
  "extend_acls [] as = Inr e \<Longrightarrow>
   read_acls (length as) (pre @ e @ post) acc (int (length pre))
   = Inr (acc @ map wire_acl as, int (length pre) + int (length e))"
proof (induction as arbitrary: pre e acc)
  case Nil
  then show ?case by simp
next
  case (Cons a as)
  from Cons.prems obtain pb sb ib e' where p: "pack_int (perms a) = Inr pb"
    and s: "write_string (scheme (acl_id a)) = Inr sb"
    and i: "write_string (id_text (acl_id a)) = Inr ib"
    and e': "extend_acls [] as = Inr e'" and e: "e = (pb @ sb @ ib) @ e'"
    by (auto simp: bind_res_eq_Inr extend_acls_Inr [of "_ @ _ @ _"])
  have "read_acl (pre @ (pb @ sb @ ib) @ (e' @ post)) (int (length pre))
        = Inr (wire_acl a, int (length pre) + int (length (pb @ sb @ ib)))"
    using read_acl_written [OF p s i] by (simp add: wire_acl_def)
  moreover have "read_acls (length as) ((pre @ pb @ sb @ ib) @ e' @ post) (acc @ [wire_acl a])
          (int (length (pre @ pb @ sb @ ib)))
        = Inr ((acc @ [wire_acl a]) @ map wire_acl as,
               int (length (pre @ pb @ sb @ ib)) + int (length e'))"
    by (rule Cons.IH [OF e'])
  ultimately show ?case by (simp add: e add.assoc)
qed

lemma GetACL_deserialize_written:
  assumes n: "pack_int (int (length as)) = Inr n" and e: "extend_acls [] as = Inr e"
    and rec: "struct_pack stat_struct vs = Inr rec" and stat: "ZnodeStat_make vs = Inr stat"
  shows "GetACL_deserialize (pre @ n @ e @ rec @ post) (int (length pre))
         = Inr (Acls_stat (map wire_acl as) stat)"
proof -
  have len: "length n = 4" using n by (rule pack_int_length)
  have 1: "unpack_int (pre @ n @ (e @ rec @ post)) (int (length pre)) = Inr (int (length as))"
    by (rule unpack_int_pack_int [OF n])
  have 2: "read_acls (length as) ((pre @ n) @ e @ (rec @ post)) [] (int (length (pre @ n)))
           = Inr ([] @ map wire_acl as, int (length (pre @ n)) + int (length e))"
    by (rule read_acls_written [OF e])
  have 3: "unpack_from stat_struct ((pre @ n @ e) @ rec @ post) (int (length (pre @ n @ e)))
           = Inr vs"
    by (rule stat_unpack_pack(2) [OF rec])
  from 1 2 3 len stat show ?thesis
    by (simp add: GetACL_deserialize_def add.assoc)
qed

lemma wire_acl_id:
  "scheme (acl_id a) \<noteq> Some [] \<Longrightarrow> id_text (acl_id a) \<noteq> Some [] \<Longrightarrow> wire_acl a = a"
  by (simp add: wire_acl_def wire_text_def)

lemma map_wire_acl_id:
  "\<forall>a\<in>set as. scheme (acl_id a) \<noteq> Some [] \<and> id_text (acl_id a) \<noteq> Some []
   \<Longrightarrow> map wire_acl as = as"
  by (induction as) (simp_all add: wire_acl_id)

lemma GetACL_deserialize_minus1:
  "unpack_int bytes offset = Inr (- 1) \<Longrightarrow> GetACL_deserialize bytes offset = Inr (Acls_only [])"
  by (simp add: GetACL_deserialize_def)

lemma Create_serialize_layout:
  "Create_serialize self = Inr out \<longleftrightarrow>
   (\<exists>p d n e f. write_string (Create.path self) = Inr p \<and> write_buffer (data self) = Inr d
      \<and> pack_int (int (length (acl self))) = Inr n \<and> extend_acls (p @ d @ n) (acl self) = Inr e
      \<and> pack_int (flags self) = Inr f \<and> out = e @ f)"
  by (auto simp: Create_serialize_def bind_res_eq_Inr)

lemma stat_example:
  "struct_pack stat_struct [1, 2, 3, 4, 5, 6, 7, 8, 9, 10, 11]
   = Inr [0,0,0,0,0,0,0,1, 0,0,0,0,0,0,0,2, 0,0,0,0,0,0,0,3, 0,0,0,0,0,0,0,4,
          0,0,0,5, 0,0,0,6, 0,0,0,7, 0,0,0,0,0,0,0,8, 0,0,0,9, 0,0,0,10,
          0,0,0,0,0,0,0,11]"
  by (simp add: stat_struct_def pack_field_def fmt_fits_def int_to_be_def)

subsection \<open>The handshake response\<close>

lemma calcsize_int_int_long_struct: "calcsize int_int_long_struct = 16"
  by (simp add: calcsize_def int_int_long_struct_def)

lemma Connect_deserialize_written:
  assumes h: "struct_pack int_int_long_struct [pv, t, sid] = Inr h"
    and p: "write_buffer pw = Inr p"
  shows "Connect_deserialize (pre @ h @ p @ post) (int (length pre))
         = Inr (\<lparr>protocol_version = pv, last_zxid_seen = 0, time_out = t, session_id = sid,
                  passwd = Some (case pw of None \<Rightarrow> [] | Some x \<Rightarrow> x), read_only = 0\<rparr>,
                int (length pre) + int (length h) + int (length p))"
proof -
  have len: "length h = 16"
    using struct_pack_length [OF h] by (simp add: calcsize_int_int_long_struct)
  have 1: "unpack_from int_int_long_struct (pre @ h @ (p @ post)) (int (length pre))
           = Inr [pv, t, sid]"
    by (rule unpack_from_struct_pack [OF h])
  have 2: "read_buffer ((pre @ h) @ p @ post) (int (length (pre @ h)))
           = Inr (case pw of None \<Rightarrow> [] | Some x \<Rightarrow> x, int (length (pre @ h)) + int (length p))"
    by (rule read_buffer_write_buffer_wire [OF p])
  from 1 2 len show ?thesis
    by (simp add: Connect_deserialize_def calcsize_int_int_long_struct add.assoc)
qed

lemma Connect_deserialize_defaults:
  assumes "Connect_deserialize bytes offset = Inr (c, offset')"
  shows "last_zxid_seen c = 0 \<and> read_only c = 0"
proof -
  from assms obtain vs r where "unpack_from int_int_long_struct bytes offset = Inr vs"
    and "read_buffer bytes (offset + int (calcsize int_int_long_struct)) = Inr r"
    and "c = \<lparr>protocol_version = vs ! 0, last_zxid_seen = 0, time_out = vs ! 1,
               session_id = vs ! 2, passwd = Some (fst r), read_only = 0\<rparr>"
    by (auto simp: Connect_deserialize_def bind_res_eq_Inr Let_def)
  then show ?thesis by simp
qed


section \<open>The claims of the specification\<close>

subsection \<open>C1: the node-metadata record\<close>

text \<open>
C1, as the code has it. The struct \<^verbatim>\<open>!qqqqiiiqiiq\<close> has six 8-byte and five 4-byte
  fields, so its size is 68 bytes. Decoding a record packed from eleven values gives
  the eleven values back in the order czxid, mzxid, ctime, mtime, version, cversion,
  aversion, ephemeralOwner, dataLength, numChildren, pzxid, whatever precedes and
  follows the record. With a non-negative offset the decoder returns a record as soon
  as 68 bytes follow the offset and reads these 68 bytes only, and it raises
  \<^verbatim>\<open>struct.error\<close> when fewer than 68 bytes follow.
\<close>

theorem stat_record_is_68_bytes:
  "calcsize stat_struct = 68
   \<and> (struct_pack stat_struct [a, b, c, d, e, f, g, h, i, j, k] = Inr rec \<longrightarrow>
        length rec = 68
        \<and> SetData_deserialize (pre @ rec @ post) (int (length pre))
            = Inr \<lparr>czxid = a, mzxid = b, ctime = c, mtime = d, ZnodeStat.version = e,
                   cversion = f, aversion = g, ephemeralOwner = h, dataLength = i,
                   numChildren = j, pzxid = k\<rparr>)
   \<and> (0 \<le> offset \<longrightarrow> offset + 68 \<le> int (length bytes) \<longrightarrow>
        (\<exists>stat. SetData_deserialize bytes offset = Inr stat
           \<and> SetData_deserialize (take 68 (drop (nat offset) bytes)) 0 = Inr stat))
   \<and> (0 \<le> off \<longrightarrow> int (length short) < off + 68 \<longrightarrow>
        SetData_deserialize short off = Inl StructError)"
proof (intro conjI impI)
  show "calcsize stat_struct = 68" by (rule calcsize_stat_struct)
next
  assume p: "struct_pack stat_struct [a, b, c, d, e, f, g, h, i, j, k] = Inr rec"
  from stat_unpack_pack(1) [OF p] show "length rec = 68" .
  from stat_unpack_pack(2) [OF p, of pre post]
  show "SetData_deserialize (pre @ rec @ post) (int (length pre))
        = Inr \<lparr>czxid = a, mzxid = b, ctime = c, mtime = d, ZnodeStat.version = e,
               cversion = f, aversion = g, ephemeralOwner = h, dataLength = i,
               numChildren = j, pzxid = k\<rparr>"
    by (simp add: SetData_deserialize_def ZnodeStat_make_11)
next
  assume o: "0 \<le> offset" "offset + 68 \<le> int (length bytes)"
  then have o': "offset + int (calcsize stat_struct) \<le> int (length bytes)"
    by (simp add: calcsize_stat_struct)
  let ?vs = "unpack_fields stat_struct (drop (nat offset) bytes)"
  have "length ?vs = 11" by (simp add: stat_struct_def)
  then obtain stat where "ZnodeStat_make ?vs = Inr stat"
    using ZnodeStat_make_total by blast
  with unpack_from_window [OF o(1) o'] 
  show "\<exists>stat. SetData_deserialize bytes offset = Inr stat
           \<and> SetData_deserialize (take 68 (drop (nat offset) bytes)) 0 = Inr stat"
    by (simp add: SetData_deserialize_def calcsize_stat_struct)
next
  assume "0 \<le> off" "int (length short) < off + 68"
  then show "SetData_deserialize short off = Inl StructError"
    by (simp add: SetData_deserialize_def unpack_from_short calcsize_stat_struct)
qed

text \<open>
C1 at a concrete record: the eleven values 1 to 11, and a buffer of three bytes.
\<close>

theorem stat_record_is_68_bytes_witness:
  "struct_pack stat_struct [1, 2, 3, 4, 5, 6, 7, 8, 9, 10, 11]
   = Inr [0,0,0,0,0,0,0,1, 0,0,0,0,0,0,0,2, 0,0,0,0,0,0,0,3, 0,0,0,0,0,0,0,4,
          0,0,0,5, 0,0,0,6, 0,0,0,7, 0,0,0,0,0,0,0,8, 0,0,0,9, 0,0,0,10,
          0,0,0,0,0,0,0,11]
   \<and> SetData_deserialize
        [0,0,0,0,0,0,0,1, 0,0,0,0,0,0,0,2, 0,0,0,0,0,0,0,3, 0,0,0,0,0,0,0,4,
          0,0,0,5, 0,0,0,6, 0,0,0,7, 0,0,0,0,0,0,0,8, 0,0,0,9, 0,0,0,10,
          0,0,0,0,0,0,0,11] 0
       = Inr \<lparr>czxid = 1, mzxid = 2, ctime = 3, mtime = 4, ZnodeStat.version = 5,
              cversion = 6, aversion = 7, ephemeralOwner = 8, dataLength = 9,
              numChildren = 10, pzxid = 11\<rparr>
   \<and> SetData_deserialize [0, 0, 0] 0 = Inl StructError"
  using stat_record_is_68_bytes [of 1 2 3 4 5 6 7 8 9 10 11
      "[0,0,0,0,0,0,0,1, 0,0,0,0,0,0,0,2, 0,0,0,0,0,0,0,3, 0,0,0,0,0,0,0,4,
          0,0,0,5, 0,0,0,6, 0,0,0,7, 0,0,0,0,0,0,0,8, 0,0,0,9, 0,0,0,10,
          0,0,0,0,0,0,0,11]" "[]" "[]" 0
      "[0,0,0,0,0,0,0,1, 0,0,0,0,0,0,0,2, 0,0,0,0,0,0,0,3, 0,0,0,0,0,0,0,4,
          0,0,0,5, 0,0,0,6, 0,0,0,7, 0,0,0,0,0,0,0,8, 0,0,0,9, 0,0,0,10,
          0,0,0,0,0,0,0,11]" 0 "[0, 0, 0]"]
  by (simp add: stat_struct_def pack_field_def fmt_fits_def int_to_be_def)

text \<open>
C1 as stated speaks of a record size of 88 bytes. The size of the struct is not 88, and
  a buffer of 68 bytes holds a whole record: all eleven fields are read from it.
\<close>

theorem stat_record_not_88_counterexample:
  "calcsize stat_struct \<noteq> 88
   \<and> length [0,0,0,0,0,0,0,1, 0,0,0,0,0,0,0,2, 0,0,0,0,0,0,0,3, 0,0,0,0,0,0,0,4,
             0,0,0,5, 0,0,0,6, 0,0,0,7, 0,0,0,0,0,0,0,8, 0,0,0,9, 0,0,0,10,
             0,0,0,0,0,0,0,11 :: byte] = 68
   \<and> SetData_deserialize
        [0,0,0,0,0,0,0,1, 0,0,0,0,0,0,0,2, 0,0,0,0,0,0,0,3, 0,0,0,0,0,0,0,4,
         0,0,0,5, 0,0,0,6, 0,0,0,7, 0,0,0,0,0,0,0,8, 0,0,0,9, 0,0,0,10,
         0,0,0,0,0,0,0,11] 0
       = Inr \<lparr>czxid = 1, mzxid = 2, ctime = 3, mtime = 4, ZnodeStat.version = 5,
              cversion = 6, aversion = 7, ephemeralOwner = 8, dataLength = 9,
              numChildren = 10, pzxid = 11\<rparr>"
  by (simp add: SetData_deserialize_def stat_struct_def ZnodeStat_make_def wire_eval)

subsection \<open>C2: SetACL.serialize\<close>

text \<open>
C2 says that serializing a SetACL value returns the path, the ACL list and the version.
  The code reads \<^verbatim>\<open>self.acl\<close>, an attribute the type does not have, so the call
  raises for every value: \<^verbatim>\<open>AttributeError\<close> for the value below, and never a byte
  sequence.
\<close>

theorem SetACL_serialize_raises:
  "SetACL_serialize \<lparr>SetACL.path = Some [0x2F, 0x61],
                      acls = [\<lparr>perms = 31, acl_id = \<lparr>scheme = Some [0x77, 0x6F, 0x72, 0x6C, 0x64],
                                                  id_text = Some [0x61, 0x6E, 0x79, 0x6F, 0x6E, 0x65]\<rparr>\<rparr>],
                      SetACL.version = 0\<rparr>
   = Inl AttributeError
   \<and> (\<forall>out. SetACL_serialize self \<noteq> Inr out)"
proof
  show "SetACL_serialize \<lparr>SetACL.path = Some [0x2F, 0x61],
                      acls = [\<lparr>perms = 31, acl_id = \<lparr>scheme = Some [0x77, 0x6F, 0x72, 0x6C, 0x64],
                                                  id_text = Some [0x61, 0x6E, 0x79, 0x6F, 0x6E, 0x65]\<rparr>\<rparr>],
                      SetACL.version = 0\<rparr>
   = Inl AttributeError"
    by (simp add: SetACL_serialize_def SetACL_acl_def write_string_def utf8_encode_char_def
          pack_int_eq fmt_fits_def int_to_be_def)
  show "\<forall>out. SetACL_serialize self \<noteq> Inr out"
    by (simp add: SetACL_serialize_def SetACL_acl_def bind_res_eq_Inr)
qed

subsection \<open>C3: round trip of length-prefixed text\<close>

text \<open>
C3, as the code has it. For every text other than the empty one, \<^verbatim>\<open>None\<close>
  included, reading the bytes that \<^verbatim>\<open>write_string\<close> produced gives the text back,
  and the offset returned is the starting offset plus the number of bytes written, at
  offset 0 and after any prefix. \<^verbatim>\<open>write_string\<close> does produce bytes for
  \<^verbatim>\<open>None\<close> and for every text of fewer than \<open>2 ^ 29\<close> code points without
  surrogates.
\<close>

theorem text_roundtrip_nonempty:
  "(write_string s = Inr bs \<longrightarrow> s \<noteq> Some [] \<longrightarrow>
      read_string bs 0 = Inr (s, int (length bs))
      \<and> read_string (pre @ bs @ post) (int (length pre))
          = Inr (s, int (length pre) + int (length bs)))
   \<and> ((\<forall>c\<in>set cs. c < 0xD800 \<or> (0xE000 \<le> c \<and> c < 0x110000)) \<longrightarrow> length cs < 2 ^ 29 \<longrightarrow>
        (\<exists>e. write_string (Some cs) = Inr e))
   \<and> write_string None = Inr [255, 255, 255, 255]"
proof (intro conjI impI)
  assume w: "write_string s = Inr bs" and s: "s \<noteq> Some []"
  from read_string_write_string_wire [OF w, of pre post] s
  show "read_string (pre @ bs @ post) (int (length pre))
        = Inr (s, int (length pre) + int (length bs))"
    by (simp add: wire_text_def)
  from read_string_write_string_wire [OF w, of "[]" "[]"] s
  show "read_string bs 0 = Inr (s, int (length bs))"
    by (simp add: wire_text_def)
next
  assume "\<forall>c\<in>set cs. c < 0xD800 \<or> (0xE000 \<le> c \<and> c < 0x110000)" "length cs < 2 ^ 29"
  then show "\<exists>e. write_string (Some cs) = Inr e" by (rule write_string_total)
next
  show "write_string None = Inr [255, 255, 255, 255]"
    by (simp add: write_string_def pack_int_minus1)
qed

text \<open>
C3 at the text of the two code points U+0061 and U+00E9.
\<close>

theorem text_roundtrip_nonempty_witness:
  "write_string (Some [0x61, 0xE9]) = Inr [0, 0, 0, 3, 0x61, 0xC3, 0xA9]
   \<and> read_string [0, 0, 0, 3, 0x61, 0xC3, 0xA9] 0 = Inr (Some [0x61, 0xE9], 7)
   \<and> read_string ([9] @ [0, 0, 0, 3, 0x61, 0xC3, 0xA9] @ [8]) 1 = Inr (Some [0x61, 0xE9], 8)"
  using text_roundtrip_nonempty
    [of "Some [0x61, 0xE9]" "[0, 0, 0, 3, 0x61, 0xC3, 0xA9]" "[9]" "[8]" "[0x61, 0xE9]"]
  by (simp add: write_string_def utf8_encode_char_def pack_int_eq fmt_fits_def int_to_be_def)

text \<open>
C3 as stated includes the empty text. It is written as the length \<open>-1\<close> and
  read back as \<^verbatim>\<open>None\<close>, which is not the empty text.
\<close>

theorem text_roundtrip_empty_counterexample:
  "write_string (Some []) = Inr [255, 255, 255, 255]
   \<and> read_string [255, 255, 255, 255] 0 = Inr (None, 4)
   \<and> (None :: utext option) \<noteq> Some []"
  by (simp add: write_string_def pack_int_minus1 read_string_def unpack_int_def unpack_from_def int_struct_def calcsize_def be_to_int_def be_to_nat_def)

subsection \<open>C4: round trip of an ACL list\<close>

text \<open>
C4, as the code has it. Take a list of entries of any length, none of whose scheme or
  identifier is the empty text. Let the buffer hold some prefix, then the 4-byte count
  and the entries as the loop of \<^verbatim>\<open>Create.serialize\<close> appends them, then a
  metadata record. Then \<^verbatim>\<open>GetACL.deserialize\<close> at the end of the prefix returns
  the same entries in the same order, with the record.
\<close>

theorem acl_list_roundtrip:
  assumes "pack_int (int (length as)) = Inr n"
    and "extend_acls (pre @ n) as = Inr b"
    and "\<forall>a\<in>set as. scheme (acl_id a) \<noteq> Some [] \<and> id_text (acl_id a) \<noteq> Some []"
    and "struct_pack stat_struct vs = Inr rec"
    and "ZnodeStat_make vs = Inr stat"
  shows "GetACL_deserialize (b @ rec @ post) (int (length pre)) = Inr (Acls_stat as stat)"
proof -
  from assms(2) obtain e where e: "extend_acls [] as = Inr e" and b: "b = (pre @ n) @ e"
    by (auto simp: extend_acls_Inr [of "pre @ n"])
  from GetACL_deserialize_written [OF assms(1) e assms(4) assms(5), of pre post]
    map_wire_acl_id [OF assms(3)] b
  show ?thesis by simp
qed

text \<open>
C4 at a list of one entry, (31, world, anyone), and at the empty list.
\<close>

theorem acl_list_roundtrip_witness:
  "extend_acls [0,0,0,1] [\<lparr>perms = 31, acl_id = \<lparr>scheme = Some [0x77, 0x6F, 0x72, 0x6C, 0x64], id_text = Some [0x61, 0x6E, 0x79, 0x6F, 0x6E, 0x65]\<rparr>\<rparr>]
   = Inr [0,0,0,1, 0,0,0,31, 0,0,0,5, 0x77,0x6F,0x72,0x6C,0x64, 0,0,0,6, 0x61,0x6E,0x79,0x6F,0x6E,0x65]
   \<and> GetACL_deserialize
        ([0,0,0,1, 0,0,0,31, 0,0,0,5, 0x77,0x6F,0x72,0x6C,0x64, 0,0,0,6, 0x61,0x6E,0x79,0x6F,0x6E,0x65]
         @ [0,0,0,0,0,0,0,1, 0,0,0,0,0,0,0,2, 0,0,0,0,0,0,0,3, 0,0,0,0,0,0,0,4,
          0,0,0,5, 0,0,0,6, 0,0,0,7, 0,0,0,0,0,0,0,8, 0,0,0,9, 0,0,0,10,
          0,0,0,0,0,0,0,11]) 0
       = Inr (Acls_stat [\<lparr>perms = 31, acl_id = \<lparr>scheme = Some [0x77, 0x6F, 0x72, 0x6C, 0x64], id_text = Some [0x61, 0x6E, 0x79, 0x6F, 0x6E, 0x65]\<rparr>\<rparr>]
                \<lparr>czxid = 1, mzxid = 2, ctime = 3, mtime = 4, ZnodeStat.version = 5,
              cversion = 6, aversion = 7, ephemeralOwner = 8, dataLength = 9,
              numChildren = 10, pzxid = 11\<rparr>)
   \<and> extend_acls [0,0,0,0] [] = Inr [0,0,0,0]
   \<and> GetACL_deserialize
        ([0,0,0,0]
         @ [0,0,0,0,0,0,0,1, 0,0,0,0,0,0,0,2, 0,0,0,0,0,0,0,3, 0,0,0,0,0,0,0,4,
          0,0,0,5, 0,0,0,6, 0,0,0,7, 0,0,0,0,0,0,0,8, 0,0,0,9, 0,0,0,10,
          0,0,0,0,0,0,0,11]) 0
       = Inr (Acls_stat []
                \<lparr>czxid = 1, mzxid = 2, ctime = 3, mtime = 4, ZnodeStat.version = 5,
              cversion = 6, aversion = 7, ephemeralOwner = 8, dataLength = 9,
              numChildren = 10, pzxid = 11\<rparr>)"
  using acl_list_roundtrip [of "[\<lparr>perms = 31, acl_id = \<lparr>scheme = Some [0x77, 0x6F, 0x72, 0x6C, 0x64], id_text = Some [0x61, 0x6E, 0x79, 0x6F, 0x6E, 0x65]\<rparr>\<rparr>]" "[0,0,0,1]" "[]"
      "[0,0,0,1, 0,0,0,31, 0,0,0,5, 0x77,0x6F,0x72,0x6C,0x64, 0,0,0,6, 0x61,0x6E,0x79,0x6F,0x6E,0x65]"
      "[1, 2, 3, 4, 5, 6, 7, 8, 9, 10, 11]"
      "[0,0,0,0,0,0,0,1, 0,0,0,0,0,0,0,2, 0,0,0,0,0,0,0,3, 0,0,0,0,0,0,0,4,
          0,0,0,5, 0,0,0,6, 0,0,0,7, 0,0,0,0,0,0,0,8, 0,0,0,9, 0,0,0,10,
          0,0,0,0,0,0,0,11]"
      "\<lparr>czxid = 1, mzxid = 2, ctime = 3, mtime = 4, ZnodeStat.version = 5,
              cversion = 6, aversion = 7, ephemeralOwner = 8, dataLength = 9,
              numChildren = 10, pzxid = 11\<rparr>" "[]"]
    acl_list_roundtrip [of "[]" "[0,0,0,0]" "[]" "[0,0,0,0]"
      "[1, 2, 3, 4, 5, 6, 7, 8, 9, 10, 11]"
      "[0,0,0,0,0,0,0,1, 0,0,0,0,0,0,0,2, 0,0,0,0,0,0,0,3, 0,0,0,0,0,0,0,4,
          0,0,0,5, 0,0,0,6, 0,0,0,7, 0,0,0,0,0,0,0,8, 0,0,0,9, 0,0,0,10,
          0,0,0,0,0,0,0,11]"
      "\<lparr>czxid = 1, mzxid = 2, ctime = 3, mtime = 4, ZnodeStat.version = 5,
              cversion = 6, aversion = 7, ephemeralOwner = 8, dataLength = 9,
              numChildren = 10, pzxid = 11\<rparr>" "[]"]
    stat_example
  by (simp add: pack_int_eq fmt_fits_def int_to_be_def write_string_def utf8_encode_char_def
        ZnodeStat_make_def)

text \<open>
C4 as stated covers every list of one entry. The entry (31, world, empty text) comes
  back with the identifier \<^verbatim>\<open>None\<close>.
\<close>

theorem acl_list_empty_text_counterexample:
  "pack_int (int (length [\<lparr>perms = 31, acl_id = \<lparr>scheme = Some [0x77, 0x6F, 0x72, 0x6C, 0x64], id_text = Some []\<rparr>\<rparr>])) = Inr [0,0,0,1]
   \<and> extend_acls [0,0,0,1] [\<lparr>perms = 31, acl_id = \<lparr>scheme = Some [0x77, 0x6F, 0x72, 0x6C, 0x64], id_text = Some []\<rparr>\<rparr>]
       = Inr [0,0,0,1, 0,0,0,31, 0,0,0,5, 0x77,0x6F,0x72,0x6C,0x64, 255,255,255,255]
   \<and> GetACL_deserialize
        ([0,0,0,1, 0,0,0,31, 0,0,0,5, 0x77,0x6F,0x72,0x6C,0x64, 255,255,255,255]
         @ [0,0,0,0,0,0,0,1, 0,0,0,0,0,0,0,2, 0,0,0,0,0,0,0,3, 0,0,0,0,0,0,0,4,
          0,0,0,5, 0,0,0,6, 0,0,0,7, 0,0,0,0,0,0,0,8, 0,0,0,9, 0,0,0,10,
          0,0,0,0,0,0,0,11]) 0
       = Inr (Acls_stat [\<lparr>perms = 31, acl_id = \<lparr>scheme = Some [0x77, 0x6F, 0x72, 0x6C, 0x64], id_text = None\<rparr>\<rparr>]
                \<lparr>czxid = 1, mzxid = 2, ctime = 3, mtime = 4, ZnodeStat.version = 5,
              cversion = 6, aversion = 7, ephemeralOwner = 8, dataLength = 9,
              numChildren = 10, pzxid = 11\<rparr>)
   \<and> [\<lparr>perms = 31, acl_id = \<lparr>scheme = Some [0x77, 0x6F, 0x72, 0x6C, 0x64], id_text = None\<rparr>\<rparr>]
       \<noteq> [\<lparr>perms = 31, acl_id = \<lparr>scheme = Some [0x77, 0x6F, 0x72, 0x6C, 0x64], id_text = Some []\<rparr>\<rparr>]"
proof -
  have e: "extend_acls [] [\<lparr>perms = 31, acl_id = \<lparr>scheme = Some [0x77, 0x6F, 0x72, 0x6C, 0x64], id_text = Some []\<rparr>\<rparr>]
           = Inr [0,0,0,31, 0,0,0,5, 0x77,0x6F,0x72,0x6C,0x64, 255,255,255,255]"
    by (simp add: pack_int_eq fmt_fits_def int_to_be_def write_string_def utf8_encode_char_def)
  have n: "pack_int (int (length [\<lparr>perms = 31, acl_id = \<lparr>scheme = Some [0x77, 0x6F, 0x72, 0x6C, 0x64], id_text = Some []\<rparr>\<rparr>])) = Inr [0,0,0,1]"
    by (simp add: pack_int_eq fmt_fits_def int_to_be_def)
  have s: "ZnodeStat_make [1, 2, 3, 4, 5, 6, 7, 8, 9, 10, 11]
           = Inr \<lparr>czxid = 1, mzxid = 2, ctime = 3, mtime = 4, ZnodeStat.version = 5,
              cversion = 6, aversion = 7, ephemeralOwner = 8, dataLength = 9,
              numChildren = 10, pzxid = 11\<rparr>"
    by (simp add: ZnodeStat_make_def)
  from GetACL_deserialize_written [OF n e stat_example s, of "[]" "[]"] n
  show ?thesis
    by (simp add: wire_acl_def wire_text_def pack_int_eq fmt_fits_def int_to_be_def
          write_string_def utf8_encode_char_def)
qed

subsection \<open>C5: the handshake\<close>

text \<open>
C5. The request with protocol version 0, last seen transaction id 0, timeout 30000,
  session id 0, an empty or absent password and a false read-only flag is the packed
  (int, long, int, long) fields, then the password buffer, then one byte 0. Decoding
  a response made of packed (int, int, long) fields and a written buffer gives these
  three fields and the buffer, with last seen transaction id 0 and read-only 0; and
  whatever the buffer, a result of the decoder has both equal to 0.
\<close>

theorem Connect_handshake_asymmetry:
  "(pw = None \<or> pw = Some [] \<longrightarrow>
      struct_pack int_long_int_long_struct [0, 0, 30000, 0]
        = Inr [0,0,0,0, 0,0,0,0,0,0,0,0, 0,0,0x75,0x30, 0,0,0,0,0,0,0,0]
      \<and> write_buffer pw = Inr [255, 255, 255, 255]
      \<and> Connect_serialize \<lparr>protocol_version = 0, last_zxid_seen = 0, time_out = 30000,
                             session_id = 0, passwd = pw, read_only = 0\<rparr>
          = Inr ([0,0,0,0, 0,0,0,0,0,0,0,0, 0,0,0x75,0x30, 0,0,0,0,0,0,0,0]
                 @ [255, 255, 255, 255] @ [0]))
   \<and> (struct_pack int_int_long_struct [pv, t, sid] = Inr h \<longrightarrow> write_buffer pwd = Inr p \<longrightarrow>
        Connect_deserialize (pre @ h @ p @ post) (int (length pre))
        = Inr (\<lparr>protocol_version = pv, last_zxid_seen = 0, time_out = t, session_id = sid,
                 passwd = Some (case pwd of None \<Rightarrow> [] | Some x \<Rightarrow> x), read_only = 0\<rparr>,
               int (length pre) + int (length h) + int (length p)))
   \<and> (Connect_deserialize bytes offset = Inr (c, offset') \<longrightarrow>
        last_zxid_seen c = 0 \<and> read_only c = 0)"
proof (intro conjI impI)
  show "struct_pack int_long_int_long_struct [0, 0, 30000, 0]
        = Inr [0,0,0,0, 0,0,0,0,0,0,0,0, 0,0,0x75,0x30, 0,0,0,0,0,0,0,0]"
    by (simp add: int_long_int_long_struct_def pack_field_def fmt_fits_def int_to_be_def)
  then show "pw = None \<or> pw = Some [] \<Longrightarrow>
    Connect_serialize \<lparr>protocol_version = 0, last_zxid_seen = 0, time_out = 30000,
                             session_id = 0, passwd = pw, read_only = 0\<rparr>
          = Inr ([0,0,0,0, 0,0,0,0,0,0,0,0, 0,0,0x75,0x30, 0,0,0,0,0,0,0,0]
                 @ [255, 255, 255, 255] @ [0])"
    by (auto simp: Connect_serialize_def write_buffer_def pack_int_minus1)
  show "pw = None \<or> pw = Some [] \<Longrightarrow> write_buffer pw = Inr [255, 255, 255, 255]"
    by (auto simp: write_buffer_def pack_int_minus1)
next
  assume "struct_pack int_int_long_struct [pv, t, sid] = Inr h" "write_buffer pwd = Inr p"
  then show "Connect_deserialize (pre @ h @ p @ post) (int (length pre))
        = Inr (\<lparr>protocol_version = pv, last_zxid_seen = 0, time_out = t, session_id = sid,
                 passwd = Some (case pwd of None \<Rightarrow> [] | Some x \<Rightarrow> x), read_only = 0\<rparr>,
               int (length pre) + int (length h) + int (length p))"
    by (rule Connect_deserialize_written)
next
  assume "Connect_deserialize bytes offset = Inr (c, offset')"
  then show "last_zxid_seen c = 0" "read_only c = 0"
    using Connect_deserialize_defaults by blast+
qed

text \<open>
C5 at the request above and at a response with session id 0x1234 and a 3-byte password.
\<close>

theorem Connect_handshake_asymmetry_witness:
  "Connect_serialize \<lparr>protocol_version = 0, last_zxid_seen = 0, time_out = 30000,
                       session_id = 0, passwd = Some [], read_only = 0\<rparr>
   = Inr [0,0,0,0, 0,0,0,0,0,0,0,0, 0,0,0x75,0x30, 0,0,0,0,0,0,0,0, 255,255,255,255, 0]
   \<and> struct_pack int_int_long_struct [0, 30000, 0x1234] = Inr [0,0,0,0, 0,0,0x75,0x30, 0,0,0,0,0,0,0x12,0x34]
   \<and> write_buffer (Some [1, 2, 3]) = Inr [0,0,0,3, 1,2,3]
   \<and> Connect_deserialize [0,0,0,0, 0,0,0x75,0x30, 0,0,0,0,0,0,0x12,0x34, 0,0,0,3, 1,2,3] 0
       = Inr (\<lparr>protocol_version = 0, last_zxid_seen = 0, time_out = 30000, session_id = 0x1234,
                passwd = Some [1, 2, 3], read_only = 0\<rparr>, 23)
   \<and> last_zxid_seen \<lparr>protocol_version = 0, last_zxid_seen = 0, time_out = 30000, session_id = 0x1234,
                passwd = Some [1, 2, 3], read_only = 0\<rparr> = 0"
  using Connect_handshake_asymmetry [of "Some []" 0 30000 "0x1234"
      "[0,0,0,0, 0,0,0x75,0x30, 0,0,0,0,0,0,0x12,0x34]" "Some [1, 2, 3]" "[0,0,0,3, 1,2,3]"
      "[]" "[]"
      "[0,0,0,0, 0,0,0x75,0x30, 0,0,0,0,0,0,0x12,0x34, 0,0,0,3, 1,2,3]" 0
      "\<lparr>protocol_version = 0, last_zxid_seen = 0, time_out = 30000, session_id = 0x1234,
                passwd = Some [1, 2, 3], read_only = 0\<rparr>" 23]
  by (simp add: int_int_long_struct_def write_buffer_def pack_int_eq pack_field_def fmt_fits_def int_to_be_def)

subsection \<open>C6: the sentinel of Exists\<close>

text \<open>
C6. When the buffer holds a metadata record at the offset, \<^verbatim>\<open>Exists.deserialize\<close>
  returns the record if its czxid is not \<open>-1\<close> and \<^verbatim>\<open>None\<close> if it is: for a
  record packed from eleven values, and for any buffer with 68 bytes after a
  non-negative offset.
\<close>

theorem Exists_deserialize_sentinel:
  "(struct_pack stat_struct [a, b, c, d, e, f, g, h, i, j, k] = Inr rec \<longrightarrow>
      Exists_deserialize (pre @ rec @ post) (int (length pre))
      = Inr (if a \<noteq> - 1
             then Some \<lparr>czxid = a, mzxid = b, ctime = c, mtime = d, ZnodeStat.version = e,
                        cversion = f, aversion = g, ephemeralOwner = h, dataLength = i,
                        numChildren = j, pzxid = k\<rparr>
             else None))
   \<and> (0 \<le> offset \<longrightarrow> offset + 68 \<le> int (length bytes) \<longrightarrow>
        (\<exists>stat. SetData_deserialize bytes offset = Inr stat
           \<and> Exists_deserialize bytes offset
               = Inr (if czxid stat \<noteq> - 1 then Some stat else None)))"
proof (intro conjI impI)
  assume p: "struct_pack stat_struct [a, b, c, d, e, f, g, h, i, j, k] = Inr rec"
  from stat_unpack_pack(2) [OF p, of pre post]
  show "Exists_deserialize (pre @ rec @ post) (int (length pre))
      = Inr (if a \<noteq> - 1
             then Some \<lparr>czxid = a, mzxid = b, ctime = c, mtime = d, ZnodeStat.version = e,
                        cversion = f, aversion = g, ephemeralOwner = h, dataLength = i,
                        numChildren = j, pzxid = k\<rparr>
             else None)"
    by (simp add: Exists_deserialize_def ZnodeStat_make_11)
next
  assume o: "0 \<le> offset" "offset + 68 \<le> int (length bytes)"
  then have o': "offset + int (calcsize stat_struct) \<le> int (length bytes)"
    by (simp add: calcsize_stat_struct)
  let ?vs = "unpack_fields stat_struct (drop (nat offset) bytes)"
  have "length ?vs = 11" by (simp add: stat_struct_def)
  then obtain stat where "ZnodeStat_make ?vs = Inr stat"
    using ZnodeStat_make_total by blast
  with unpack_from_window(1) [OF o(1) o'] 
  show "\<exists>stat. SetData_deserialize bytes offset = Inr stat
           \<and> Exists_deserialize bytes offset
               = Inr (if czxid stat \<noteq> - 1 then Some stat else None)"
    by (simp add: SetData_deserialize_def Exists_deserialize_def)
qed

text \<open>
C6 at a record with czxid \<open>-1\<close> and at a record with czxid 1.
\<close>

theorem Exists_deserialize_sentinel_witness:
  "struct_pack stat_struct [- 1, 2, 3, 4, 5, 6, 7, 8, 9, 10, 11]
   = Inr [255,255,255,255,255,255,255,255, 0,0,0,0,0,0,0,2, 0,0,0,0,0,0,0,3, 0,0,0,0,0,0,0,4,
          0,0,0,5, 0,0,0,6, 0,0,0,7, 0,0,0,0,0,0,0,8, 0,0,0,9, 0,0,0,10,
          0,0,0,0,0,0,0,11]
   \<and> Exists_deserialize
        [255,255,255,255,255,255,255,255, 0,0,0,0,0,0,0,2, 0,0,0,0,0,0,0,3, 0,0,0,0,0,0,0,4,
          0,0,0,5, 0,0,0,6, 0,0,0,7, 0,0,0,0,0,0,0,8, 0,0,0,9, 0,0,0,10,
          0,0,0,0,0,0,0,11] 0
       = Inr None
   \<and> struct_pack stat_struct [1, 2, 3, 4, 5, 6, 7, 8, 9, 10, 11]
   = Inr [0,0,0,0,0,0,0,1, 0,0,0,0,0,0,0,2, 0,0,0,0,0,0,0,3, 0,0,0,0,0,0,0,4,
          0,0,0,5, 0,0,0,6, 0,0,0,7, 0,0,0,0,0,0,0,8, 0,0,0,9, 0,0,0,10,
          0,0,0,0,0,0,0,11]
   \<and> Exists_deserialize
        [0,0,0,0,0,0,0,1, 0,0,0,0,0,0,0,2, 0,0,0,0,0,0,0,3, 0,0,0,0,0,0,0,4,
          0,0,0,5, 0,0,0,6, 0,0,0,7, 0,0,0,0,0,0,0,8, 0,0,0,9, 0,0,0,10,
          0,0,0,0,0,0,0,11] 0
       = Inr (Some \<lparr>czxid = 1, mzxid = 2, ctime = 3, mtime = 4, ZnodeStat.version = 5,
              cversion = 6, aversion = 7, ephemeralOwner = 8, dataLength = 9,
              numChildren = 10, pzxid = 11\<rparr>)"
  using Exists_deserialize_sentinel [of "- 1" 2 3 4 5 6 7 8 9 10 11
      "[255,255,255,255,255,255,255,255, 0,0,0,0,0,0,0,2, 0,0,0,0,0,0,0,3, 0,0,0,0,0,0,0,4,
          0,0,0,5, 0,0,0,6, 0,0,0,7, 0,0,0,0,0,0,0,8, 0,0,0,9, 0,0,0,10,
          0,0,0,0,0,0,0,11]" "[]" "[]" 0
      "[255,255,255,255,255,255,255,255, 0,0,0,0,0,0,0,2, 0,0,0,0,0,0,0,3, 0,0,0,0,0,0,0,4,
          0,0,0,5, 0,0,0,6, 0,0,0,7, 0,0,0,0,0,0,0,8, 0,0,0,9, 0,0,0,10,
          0,0,0,0,0,0,0,11]"]
    Exists_deserialize_sentinel [of 1 2 3 4 5 6 7 8 9 10 11
      "[0,0,0,0,0,0,0,1, 0,0,0,0,0,0,0,2, 0,0,0,0,0,0,0,3, 0,0,0,0,0,0,0,4,
          0,0,0,5, 0,0,0,6, 0,0,0,7, 0,0,0,0,0,0,0,8, 0,0,0,9, 0,0,0,10,
          0,0,0,0,0,0,0,11]" "[]" "[]" 0
      "[0,0,0,0,0,0,0,1, 0,0,0,0,0,0,0,2, 0,0,0,0,0,0,0,3, 0,0,0,0,0,0,0,4,
          0,0,0,5, 0,0,0,6, 0,0,0,7, 0,0,0,0,0,0,0,8, 0,0,0,9, 0,0,0,10,
          0,0,0,0,0,0,0,11]"]
  by (simp add: stat_struct_def pack_field_def fmt_fits_def int_to_be_def)

subsection \<open>C7: the two shapes of the GetACL response\<close>

text \<open>
C7. With the count \<open>-1\<close>, \<^verbatim>\<open>GetACL.deserialize\<close> returns the empty list,
  whatever follows the count and also when nothing follows it. With the count 1, one
  written entry and a metadata record, it returns the pair of the list of that entry
  and the record.
\<close>

theorem GetACL_deserialize_shapes:
  "(unpack_int bytes offset = Inr (- 1) \<longrightarrow>
      GetACL_deserialize bytes offset = Inr (Acls_only []))
   \<and> GetACL_deserialize (pre @ [255, 255, 255, 255] @ post) (int (length pre))
       = Inr (Acls_only [])
   \<and> (pack_int p = Inr pb \<longrightarrow> write_string s = Inr sb \<longrightarrow> write_string t = Inr tb \<longrightarrow>
        struct_pack stat_struct [a, b, c, d, e, f, g, h, i, j, k] = Inr rec \<longrightarrow>
        GetACL_deserialize (pre @ [0, 0, 0, 1] @ (pb @ sb @ tb) @ rec @ post) (int (length pre))
        = Inr (Acls_stat
                 [\<lparr>perms = p, acl_id = \<lparr>scheme = wire_text s, id_text = wire_text t\<rparr>\<rparr>]
                 \<lparr>czxid = a, mzxid = b, ctime = c, mtime = d, ZnodeStat.version = e,
                  cversion = f, aversion = g, ephemeralOwner = h, dataLength = i,
                  numChildren = j, pzxid = k\<rparr>))"
proof (intro conjI impI)
  assume "unpack_int bytes offset = Inr (- 1)"
  then show "GetACL_deserialize bytes offset = Inr (Acls_only [])"
    by (rule GetACL_deserialize_minus1)
next
  from unpack_int_pack_int [OF pack_int_minus1, of pre post]
  show "GetACL_deserialize (pre @ [255, 255, 255, 255] @ post) (int (length pre))
        = Inr (Acls_only [])"
    by (rule GetACL_deserialize_minus1)
next
  assume p: "pack_int p = Inr pb" and s: "write_string s = Inr sb"
    and t: "write_string t = Inr tb"
    and rec: "struct_pack stat_struct [a, b, c, d, e, f, g, h, i, j, k] = Inr rec"
  let ?acl = "\<lparr>perms = p, acl_id = \<lparr>scheme = s, id_text = t\<rparr>\<rparr>"
  have n: "pack_int (int (length [?acl])) = Inr [0, 0, 0, 1]"
    by (simp add: pack_int_eq fmt_fits_def int_to_be_def)
  have e: "extend_acls [] [?acl] = Inr (pb @ sb @ tb)"
    using p s t by simp
  from GetACL_deserialize_written [OF n e rec ZnodeStat_make_11, of pre post]
  show "GetACL_deserialize (pre @ [0, 0, 0, 1] @ (pb @ sb @ tb) @ rec @ post) (int (length pre))
        = Inr (Acls_stat
                 [\<lparr>perms = p, acl_id = \<lparr>scheme = wire_text s, id_text = wire_text t\<rparr>\<rparr>]
                 \<lparr>czxid = a, mzxid = b, ctime = c, mtime = d, ZnodeStat.version = e,
                  cversion = f, aversion = g, ephemeralOwner = h, dataLength = i,
                  numChildren = j, pzxid = k\<rparr>)"
    by (simp add: wire_acl_def)
qed

text \<open>
C7 at the buffer of the four bytes of \<open>-1\<close> and at the entry (31, world, anyone).
\<close>

theorem GetACL_deserialize_shapes_witness:
  "unpack_int [255, 255, 255, 255] 0 = Inr (- 1)
   \<and> GetACL_deserialize [255, 255, 255, 255] 0 = Inr (Acls_only [])
   \<and> GetACL_deserialize
        ([0,0,0,1, 0,0,0,31, 0,0,0,5, 0x77,0x6F,0x72,0x6C,0x64, 0,0,0,6, 0x61,0x6E,0x79,0x6F,0x6E,0x65]
         @ [0,0,0,0,0,0,0,1, 0,0,0,0,0,0,0,2, 0,0,0,0,0,0,0,3, 0,0,0,0,0,0,0,4,
          0,0,0,5, 0,0,0,6, 0,0,0,7, 0,0,0,0,0,0,0,8, 0,0,0,9, 0,0,0,10,
          0,0,0,0,0,0,0,11]) 0
       = Inr (Acls_stat [\<lparr>perms = 31, acl_id = \<lparr>scheme = Some [0x77, 0x6F, 0x72, 0x6C, 0x64], id_text = Some [0x61, 0x6E, 0x79, 0x6F, 0x6E, 0x65]\<rparr>\<rparr>]
                \<lparr>czxid = 1, mzxid = 2, ctime = 3, mtime = 4, ZnodeStat.version = 5,
              cversion = 6, aversion = 7, ephemeralOwner = 8, dataLength = 9,
              numChildren = 10, pzxid = 11\<rparr>)"
  using GetACL_deserialize_shapes [of "[255, 255, 255, 255]" 0 "[]" "[]" 31 "[0,0,0,31]"
      "Some [0x77, 0x6F, 0x72, 0x6C, 0x64]" "[0,0,0,5, 0x77,0x6F,0x72,0x6C,0x64]"
      "Some [0x61, 0x6E, 0x79, 0x6F, 0x6E, 0x65]" "[0,0,0,6, 0x61,0x6E,0x79,0x6F,0x6E,0x65]"
      1 2 3 4 5 6 7 8 9 10 11
      "[0,0,0,0,0,0,0,1, 0,0,0,0,0,0,0,2, 0,0,0,0,0,0,0,3, 0,0,0,0,0,0,0,4,
          0,0,0,5, 0,0,0,6, 0,0,0,7, 0,0,0,0,0,0,0,8, 0,0,0,9, 0,0,0,10,
          0,0,0,0,0,0,0,11]"]
    stat_example
  by (simp add: wire_eval wire_text_def write_string_def utf8_encode_char_def)

subsection \<open>C8: round trip of length-prefixed buffers\<close>

text \<open>
C8. For a non-empty byte sequence, reading at offset 0 the bytes that
  \<^verbatim>\<open>write_buffer\<close> produced returns the sequence and the offset 4 plus its length;
  \<^verbatim>\<open>write_buffer\<close> produces bytes when the length is below \<open>2 ^ 31\<close>. The
  empty buffer and \<^verbatim>\<open>None\<close> are written as the four bytes of \<open>-1\<close>, which
  read back as the empty sequence with the offset 4.
\<close>

theorem buffer_roundtrip:
  "(b \<noteq> [] \<longrightarrow> write_buffer (Some b) = Inr enc \<longrightarrow>
      read_buffer enc 0 = Inr (b, 4 + int (length b)) \<and> length enc = 4 + length b)
   \<and> (b \<noteq> [] \<longrightarrow> length b < 2 ^ 31 \<longrightarrow> (\<exists>e. write_buffer (Some b) = Inr e))
   \<and> write_buffer (Some []) = Inr [255, 255, 255, 255]
   \<and> write_buffer None = Inr [255, 255, 255, 255]
   \<and> read_buffer [255, 255, 255, 255] 0 = Inr ([], 4)"
proof (intro conjI impI)
  assume b: "b \<noteq> []" and w: "write_buffer (Some b) = Inr enc"
  then obtain l where l: "pack_int (int (length b)) = Inr l" and enc: "enc = l @ b"
    by (auto simp: write_buffer_def bind_res_eq_Inr)
  from pack_int_length [OF l] enc show "length enc = 4 + length b" by simp
  from read_buffer_present [OF l, of "[]" "[]"] enc
  show "read_buffer enc 0 = Inr (b, 4 + int (length b))" by simp
next
  assume b: "b \<noteq> []" and "length b < 2 ^ 31"
  then have "pack_int (int (length b)) = Inr (int_to_be 4 (int (length b)))"
    by (intro pack_int_nat)
  with b show "\<exists>e. write_buffer (Some b) = Inr e" by (simp add: write_buffer_def)
next
  show "write_buffer (Some []) = Inr [255, 255, 255, 255]"
    by (simp add: write_buffer_def pack_int_minus1)
  show "write_buffer None = Inr [255, 255, 255, 255]"
    by (simp add: write_buffer_def pack_int_minus1)
  show "read_buffer [255, 255, 255, 255] 0 = Inr ([], 4)"
    using read_buffer_absent [OF pack_int_minus1, of "[]" "[]"] by simp
qed

text \<open>
C8 at the buffer of the three bytes 1, 2, 3.
\<close>

theorem buffer_roundtrip_witness:
  "write_buffer (Some [1, 2, 3]) = Inr [0, 0, 0, 3, 1, 2, 3]
   \<and> read_buffer [0, 0, 0, 3, 1, 2, 3] 0 = Inr ([1, 2, 3], 7)"
  using buffer_roundtrip [of "[1, 2, 3]" "[0, 0, 0, 3, 1, 2, 3]"]
  by (simp add: wire_eval write_buffer_def)

subsection \<open>C9: GetChildren.serialize does not read the children\<close>

text \<open>
C9. Two GetChildren values with the same path and the same watcher are serialized
  to the same result, whatever their children fields hold.
\<close>

theorem GetChildren_serialize_ignores_children:
  fixes x :: "'a GetChildren" and y :: "'b GetChildren"
  assumes "GetChildren.path x = GetChildren.path y" and "watcher x = watcher y"
  shows "GetChildren_serialize x = GetChildren_serialize y"
  using assms by (simp add: GetChildren_serialize_def)

text \<open>
C9 at two values that differ in the children field only.
\<close>

theorem GetChildren_serialize_ignores_children_witness:
  "GetChildren.path \<lparr>GetChildren.path = Some [0x2F, 0x61], children = [1 :: nat], watcher = True\<rparr>
   = GetChildren.path \<lparr>GetChildren.path = Some [0x2F, 0x61], children = [2 :: nat, 3], watcher = True\<rparr>
   \<and> children \<lparr>GetChildren.path = Some [0x2F, 0x61], children = [1 :: nat], watcher = True\<rparr>
   \<noteq> children \<lparr>GetChildren.path = Some [0x2F, 0x61], children = [2 :: nat, 3], watcher = True\<rparr>
   \<and> GetChildren_serialize \<lparr>GetChildren.path = Some [0x2F, 0x61], children = [1 :: nat], watcher = True\<rparr>
   = GetChildren_serialize \<lparr>GetChildren.path = Some [0x2F, 0x61], children = [2 :: nat, 3], watcher = True\<rparr>
   \<and> GetChildren_serialize \<lparr>GetChildren.path = Some [0x2F, 0x61], children = [1 :: nat], watcher = True\<rparr>
   = Inr [0, 0, 0, 2, 0x2F, 0x61, 1]"
  using GetChildren_serialize_ignores_children
    [of "\<lparr>GetChildren.path = Some [0x2F, 0x61], children = [1 :: nat], watcher = True\<rparr>"
        "\<lparr>GetChildren.path = Some [0x2F, 0x61], children = [2 :: nat, 3], watcher = True\<rparr>"]
  by (simp add: GetChildren_serialize_def write_string_def utf8_encode_char_def
        pack_int_eq fmt_fits_def int_to_be_def)

subsection \<open>C10: a length prefix of 0\<close>

text \<open>
C10. When the 4-byte length at the offset is 0, \<^verbatim>\<open>read_string\<close> returns the
  empty text, not \<^verbatim>\<open>None\<close>, and the offset plus 4. No output of
  \<^verbatim>\<open>write_string\<close> starts with the length 0.
\<close>

theorem read_string_zero_length:
  "(unpack_int buffer offset = Inr 0 \<longrightarrow> read_string buffer offset = Inr (Some [], offset + 4))
   \<and> (write_string s = Inr bs \<longrightarrow> unpack_int bs 0 \<noteq> Inr 0)"
proof (intro conjI impI)
  assume "unpack_int buffer offset = Inr 0"
  then show "read_string buffer offset = Inr (Some [], offset + 4)"
    by (simp add: read_string_def)
next
  assume w: "write_string s = Inr bs"
  show "unpack_int bs 0 \<noteq> Inr 0"
  proof (cases "s = None \<or> s = Some []")
    case True
    with w have "pack_int (- 1) = Inr bs" by (simp add: write_string_def)
    from unpack_int_pack_int [OF this, of "[]" "[]"] show ?thesis by simp
  next
    case False
    then obtain cs where s: "s = Some cs" and cs: "cs \<noteq> []" by (cases s) auto
    with w obtain u l where u: "utf8_encode cs = Inr u"
      and l: "pack_int (int (length u)) = Inr l" and bs: "bs = l @ u"
      by (auto simp: write_string_def bind_res_eq_Inr)
    from utf8_encode_nonempty [OF u cs] have "int (length u) \<noteq> 0" by simp
    with unpack_int_pack_int [OF l, of "[]" u] bs show ?thesis by simp
  qed
qed

text \<open>
C10 at a buffer that starts with four zero bytes and at the text of U+002F, U+0061.
\<close>

theorem read_string_zero_length_witness:
  "unpack_int [0, 0, 0, 0, 7] 0 = Inr 0
   \<and> read_string [0, 0, 0, 0, 7] 0 = Inr (Some [], 4)
   \<and> write_string (Some [0x2F, 0x61]) = Inr [0, 0, 0, 2, 0x2F, 0x61]
   \<and> unpack_int [0, 0, 0, 2, 0x2F, 0x61] 0 \<noteq> Inr 0"
  using read_string_zero_length [of "[0, 0, 0, 0, 7]" 0 "Some [0x2F, 0x61]" "[0, 0, 0, 2, 0x2F, 0x61]"]
  by (simp add: wire_eval write_string_def utf8_encode_char_def)

end
